theory Spec2Isabelle
  imports Complex_Main
begin

section \<open>Pixel Surge: the run-time simulation of endless\_runner.py\<close>

text \<open>
  The development follows \<^verbatim>\<open>python-endless-runner-main-05-13-25/endless_runner.py\<close>.
  Python floats are read as exact real numbers and Python integers as \<^typ>\<open>int\<close>.
  What pygame supplies (surfaces, rectangles, masks, sprite groups, the event queue, the
  random generator) is written out as far as the game logic depends on it; drawing,
  font rendering and the mixer have no influence on the state and are left out.
\<close>

subsection \<open>Constants\<close>

definition GAME_WIDTH :: int where "GAME_WIDTH = 800"
definition GAME_HEIGHT :: int where "GAME_HEIGHT = 432"
definition FPS :: int where "FPS = 60"

definition PLAYER_START_X :: int where "PLAYER_START_X = 25"
definition PLAYER_HEIGHT :: int where "PLAYER_HEIGHT = 150"
definition PLAYER_START_HEALTH :: int where "PLAYER_START_HEALTH = 3"
definition PLAYER_JUMP_VELOCITY :: real where "PLAYER_JUMP_VELOCITY = - 4"
definition PLAYER_GRAVITY :: real where "PLAYER_GRAVITY = 2 / 10"
definition PLAYER_LAND_Y :: int where "PLAYER_LAND_Y = GAME_HEIGHT - PLAYER_HEIGHT"
definition PLAYER_ANIMATION_SPEED :: real where "PLAYER_ANIMATION_SPEED = 2 / 10"
definition PLAYER_INVINCIBILITY_DURATION :: int where "PLAYER_INVINCIBILITY_DURATION = 60"

definition OBSTACLE_SCALE_WIDTH :: int where "OBSTACLE_SCALE_WIDTH = 50"
definition OBSTACLE_SPAWN_OFFSET_MIN :: int where "OBSTACLE_SPAWN_OFFSET_MIN = 0"
definition OBSTACLE_SPAWN_OFFSET_MAX :: int where "OBSTACLE_SPAWN_OFFSET_MAX = 200"

definition STARTING_SPEED :: real where "STARTING_SPEED = 5"
definition MAX_SPEED :: real where "MAX_SPEED = 13"
definition SPEED_INCREASE_INTERVAL :: int where "SPEED_INCREASE_INTERVAL = 4"
definition SPEED_INCREASE_AMOUNT :: real where "SPEED_INCREASE_AMOUNT = 4 / 10"
definition HEART_ANIMATION_SPEED :: real where "HEART_ANIMATION_SPEED = 1 / 10"
definition VOLUME_STEP :: real where "VOLUME_STEP = 1 / 10"

lemmas constants =
  GAME_WIDTH_def GAME_HEIGHT_def FPS_def PLAYER_START_X_def PLAYER_HEIGHT_def
  PLAYER_START_HEALTH_def PLAYER_JUMP_VELOCITY_def PLAYER_GRAVITY_def PLAYER_LAND_Y_def
  PLAYER_ANIMATION_SPEED_def PLAYER_INVINCIBILITY_DURATION_def OBSTACLE_SCALE_WIDTH_def
  OBSTACLE_SPAWN_OFFSET_MIN_def OBSTACLE_SPAWN_OFFSET_MAX_def STARTING_SPEED_def
  MAX_SPEED_def SPEED_INCREASE_INTERVAL_def SPEED_INCREASE_AMOUNT_def
  HEART_ANIMATION_SPEED_def VOLUME_STEP_def

datatype State =
  STATE_MAIN_MENU | STATE_PLAYING | STATE_PAUSED | STATE_INSTRUCTIONS | STATE_SETTINGS
  | STATE_GAME_OVER

subsection \<open>Python arithmetic\<close>

text \<open>\<^verbatim>\<open>int(x)\<close> on a float truncates towards zero.\<close>

definition py_int :: "real \<Rightarrow> int" where
  "py_int v = (if 0 \<le> v then \<lfloor>v\<rfloor> else \<lceil>v\<rceil>)"

text \<open>\<^verbatim>\<open>a % n\<close> for a float \<open>a\<close> and a positive integer \<open>n\<close>: the result lies in \<open>[0, n)\<close>.
  Every use in the source is guarded by a non-empty sprite list, so \<open>n\<close> is positive.\<close>

definition py_fmod :: "real \<Rightarrow> nat \<Rightarrow> real" where
  "py_fmod a n = a - real n * of_int \<lfloor>a / real n\<rfloor>"

text \<open>The random generator: \<open>r\<close> is the raw number the generator produces for a call.
  \<^verbatim>\<open>random.choice(seq)\<close> picks an index below \<open>len(seq)\<close>;
  \<^verbatim>\<open>random.randint(a, b)\<close> picks an integer of \<open>[a, b]\<close>.\<close>

definition random_choice :: "nat \<Rightarrow> 'a list \<Rightarrow> 'a" where
  "random_choice r seq = seq ! (r mod length seq)"

definition random_randint :: "nat \<Rightarrow> int \<Rightarrow> int \<Rightarrow> int" where
  "random_randint r a b = a + int r mod (b - a + 1)"

subsection \<open>Surfaces, rectangles and masks\<close>

text \<open>A surface is known by its size and by the pixels that
  \<^verbatim>\<open>pygame.mask.from_surface\<close> sets (those that are not transparent).\<close>

record Surface =
  surf_width :: int
  surf_height :: int
  surf_opaque :: "(int \<times> int) list"

text \<open>\<^verbatim>\<open>pygame.Surface((w, h))\<close> filled with a colour: every pixel is opaque.\<close>

definition filled_surface :: "int \<Rightarrow> int \<Rightarrow> Surface" where
  "filled_surface w h =
     \<lparr>surf_width = w, surf_height = h, surf_opaque = List.product [0..w - 1] [0..h - 1]\<rparr>"

record Rect =
  rect_x :: int
  rect_y :: int
  rect_w :: int
  rect_h :: int

definition rect_right :: "Rect \<Rightarrow> int" where
  "rect_right r = rect_x r + rect_w r"

definition collidepoint :: "Rect \<Rightarrow> int \<times> int \<Rightarrow> bool" where
  "collidepoint r pos =
     (rect_x r \<le> fst pos \<and> fst pos < rect_x r + rect_w r \<and>
      rect_y r \<le> snd pos \<and> snd pos < rect_y r + rect_h r)"

text \<open>A pygame rectangle is truthy when neither its width nor its height is zero.\<close>

definition rect_truthy :: "Rect \<Rightarrow> bool" where
  "rect_truthy r = (rect_w r \<noteq> 0 \<and> rect_h r \<noteq> 0)"

text \<open>\<^verbatim>\<open>image.get_rect(topleft=(x, y))\<close>: the rectangle has the size of the image.\<close>

definition get_rect :: "Surface \<Rightarrow> int \<times> int \<Rightarrow> Rect" where
  "get_rect img topleft =
     \<lparr>rect_x = fst topleft, rect_y = snd topleft,
      rect_w = surf_width img, rect_h = surf_height img\<rparr>"

record Mask =
  mask_w :: int
  mask_h :: int
  mask_bits :: "(int \<times> int) list"

definition from_surface :: "Surface \<Rightarrow> Mask" where
  "from_surface img =
     \<lparr>mask_w = surf_width img, mask_h = surf_height img, mask_bits = surf_opaque img\<rparr>"

definition get_at :: "Mask \<Rightarrow> int \<times> int \<Rightarrow> bool" where
  "get_at m pos =
     (0 \<le> fst pos \<and> fst pos < mask_w m \<and> 0 \<le> snd pos \<and> snd pos < mask_h m \<and>
      pos \<in> set (mask_bits m))"

text \<open>\<^verbatim>\<open>Mask.overlap(other, offset)\<close>: a point of this mask that is set here and
  in the other mask shifted by the offset, or \<open>None\<close>.\<close>

definition overlap :: "Mask \<Rightarrow> Mask \<Rightarrow> int \<times> int \<Rightarrow> (int \<times> int) option" where
  "overlap m other offset =
     find (\<lambda>pos. get_at m pos \<and> get_at other (fst pos - fst offset, snd pos - snd offset))
       (mask_bits m)"

subsection \<open>The player\<close>

datatype Action = Running | Jumping

record Player =
  height :: int
  pl_x :: int
  pl_y :: real
  action :: Action
  health :: int
  invincibility_frame :: int
  vel_y :: real
  running_sprites :: "Surface list"
  jumping_sprites :: "Surface list"
  running_sprite_index :: real
  jumping_sprite_index :: real
  current_sprite_list :: "Surface list"
  current_sprite_index :: real
  pl_image :: Surface
  pl_rect :: Rect
  pl_mask :: Mask

text \<open>\<^verbatim>\<open>load_animation_frames(directory, num_frames, target_height)\<close> returns one
  surface per frame number; \<open>frame i\<close> is what \<^verbatim>\<open>load_scaled_image\<close> returns for file \<open>i\<close>
  (the image, or its red placeholder).\<close>

definition load_animation_frames :: "(nat \<Rightarrow> Surface) \<Rightarrow> nat \<Rightarrow> Surface list" where
  "load_animation_frames frame num_frames = map frame [0..<num_frames]"

text \<open>\<^verbatim>\<open>Player.__init__\<close>. The argument is \<open>Some\<close> of the running and jumping frame files
  when both loads return, and \<open>None\<close> when one of them raises: the \<^verbatim>\<open>except\<close> branch then
  installs one red surface of 50 by \<open>height\<close> in each list.\<close>

definition Player_init :: "((nat \<Rightarrow> Surface) \<times> (nat \<Rightarrow> Surface)) option \<Rightarrow> Player" where
  "Player_init files =
     (let rs = (case files of
                  Some (run, jump) \<Rightarrow> load_animation_frames run 8
                | None \<Rightarrow> [filled_surface 50 PLAYER_HEIGHT]);
          js = (case files of
                  Some (run, jump) \<Rightarrow> load_animation_frames jump 8
                | None \<Rightarrow> [filled_surface 50 PLAYER_HEIGHT]);
          img = rs ! 0
      in \<lparr>height = PLAYER_HEIGHT, pl_x = PLAYER_START_X, pl_y = of_int PLAYER_LAND_Y,
          action = Running, health = PLAYER_START_HEALTH, invincibility_frame = 0,
          vel_y = 0, running_sprites = rs, jumping_sprites = js,
          running_sprite_index = 0, jumping_sprite_index = 0,
          current_sprite_list = rs, current_sprite_index = 0,
          pl_image = img, pl_rect = get_rect img (PLAYER_START_X, PLAYER_LAND_Y),
          pl_mask = from_surface img\<rparr>)"

text \<open>\<^verbatim>\<open>Player.update\<close>, block by block: gravity and landing.\<close>

definition Player_physics :: "Player \<Rightarrow> Player" where
  "Player_physics p =
     (case action p of
        Jumping \<Rightarrow>
          (let y1 = pl_y p + vel_y p;
               v1 = vel_y p + PLAYER_GRAVITY
           in if y1 \<ge> of_int PLAYER_LAND_Y
              then p\<lparr>pl_y := of_int PLAYER_LAND_Y, action := Running, vel_y := 0\<rparr>
              else p\<lparr>pl_y := y1, vel_y := v1\<rparr>)
      | Running \<Rightarrow>
          (if pl_y p < of_int PLAYER_LAND_Y then p\<lparr>pl_y := of_int PLAYER_LAND_Y\<rparr> else p))"

text \<open>The animation phase of the active sequence.\<close>

definition Player_animation :: "Player \<Rightarrow> Player" where
  "Player_animation p =
     (case action p of
        Running \<Rightarrow>
          (let i = py_fmod (running_sprite_index p + PLAYER_ANIMATION_SPEED)
                     (length (running_sprites p))
           in p\<lparr>current_sprite_list := running_sprites p, running_sprite_index := i,
                current_sprite_index := i\<rparr>)
      | Jumping \<Rightarrow>
          (let i = py_fmod (jumping_sprite_index p + PLAYER_ANIMATION_SPEED)
                     (length (jumping_sprites p))
           in p\<lparr>current_sprite_list := jumping_sprites p, jumping_sprite_index := i,
                current_sprite_index := i\<rparr>))"

text \<open>Image, rectangle and mask. The index is clamped into the list, which is not empty
  here. Assigning \<^verbatim>\<open>rect.topleft\<close> keeps the size of the rectangle and stores integers.\<close>

definition Player_image :: "Player \<Rightarrow> Player" where
  "Player_image p =
     (let index = py_int (current_sprite_index p);
          index = max 0 (min index (int (length (current_sprite_list p)) - 1));
          img = current_sprite_list p ! nat index
      in p\<lparr>pl_image := img,
           pl_rect := (pl_rect p)\<lparr>rect_x := pl_x p, rect_y := py_int (pl_y p)\<rparr>,
           pl_mask := from_surface img\<rparr>)"

text \<open>The invincibility timer.\<close>

definition Player_timer :: "Player \<Rightarrow> Player" where
  "Player_timer p =
     (if invincibility_frame p > 0
      then p\<lparr>invincibility_frame := invincibility_frame p - 1\<rparr> else p)"

definition Player_update :: "real \<Rightarrow> Player \<Rightarrow> Player" where
  "Player_update dt p =
     (if running_sprites p = [] \<or> jumping_sprites p = [] then p
      else Player_timer (Player_image (Player_animation (Player_physics p))))"

definition Player_jump :: "Player \<Rightarrow> Player" where
  "Player_jump p =
     (if action p = Running
      then p\<lparr>action := Jumping, vel_y := PLAYER_JUMP_VELOCITY, jumping_sprite_index := 0\<rparr>
      else p)"

subsection \<open>The obstacle\<close>

record Obstacle =
  obstacle_images :: "Surface list"
  ob_image :: Surface
  game_speed :: real
  ob_x :: real
  ob_y :: int
  ob_rect :: Rect
  ob_mask :: Mask

text \<open>\<^verbatim>\<open>Obstacle.__init__\<close>. \<open>loaded\<close> is the list \<^verbatim>\<open>_load_obstacle_images\<close> returns and
  \<open>r\<close> the random number behind \<^verbatim>\<open>random.choice\<close>. The obstacle starts at \<open>GAME_WIDTH\<close>.\<close>

definition Obstacle_init :: "Surface list \<Rightarrow> nat \<Rightarrow> real \<Rightarrow> Obstacle" where
  "Obstacle_init loaded r speed_arg =
     (let images = (if loaded = [] then [filled_surface OBSTACLE_SCALE_WIDTH 50] else loaded);
          img = random_choice r images;
          y = GAME_HEIGHT - surf_height img
      in \<lparr>obstacle_images = images, ob_image = img, game_speed = speed_arg,
          ob_x = of_int GAME_WIDTH, ob_y = y, ob_rect = get_rect img (GAME_WIDTH, y),
          ob_mask = from_surface img\<rparr>)"

text \<open>\<^verbatim>\<open>Obstacle.update\<close>. The position \<open>x\<close> is a Python float, read here as an exact
  real: the rounding of the subtraction is not modelled, and a displacement too small
  for a double to hold, which the program absorbs, still moves the obstacle here. No
  property below rests on such a displacement. The rectangle takes \<^verbatim>\<open>int(self.x)\<close>;
  the range pygame allows for the coordinates of a rectangle is not modelled.\<close>

definition Obstacle_update :: "real \<Rightarrow> Obstacle \<Rightarrow> Obstacle" where
  "Obstacle_update dt ob =
     (let x1 = ob_x ob - game_speed ob * dt * of_int FPS
      in ob\<lparr>ob_x := x1, ob_rect := (ob_rect ob)\<lparr>rect_x := py_int x1\<rparr>\<rparr>)"

text \<open>\<^verbatim>\<open>Obstacle.reset\<close>, with the random numbers behind \<^verbatim>\<open>random.choice\<close> and
  \<^verbatim>\<open>random.randint\<close>. No function of the program calls it.\<close>

definition Obstacle_reset :: "nat \<Rightarrow> nat \<Rightarrow> real \<Rightarrow> Obstacle \<Rightarrow> Obstacle" where
  "Obstacle_reset r1 r2 speed_arg ob =
     (let img = random_choice r1 (obstacle_images ob);
          x1 = GAME_WIDTH + random_randint r2 OBSTACLE_SPAWN_OFFSET_MIN OBSTACLE_SPAWN_OFFSET_MAX;
          y = GAME_HEIGHT - surf_height img
      in ob\<lparr>ob_image := img, ob_x := of_int x1, ob_y := y, ob_rect := get_rect img (x1, y),
            ob_mask := from_surface img, game_speed := speed_arg\<rparr>)"

text \<open>\<^verbatim>\<open>pygame.sprite.collide_mask(player, obstacle)\<close>: the masks are compared at the
  offset between the two rectangles; the result is truthy when a point is found.\<close>

definition collide_mask :: "Player \<Rightarrow> Obstacle \<Rightarrow> bool" where
  "collide_mask p ob =
     (overlap (pl_mask p) (ob_mask ob)
        (rect_x (ob_rect ob) - rect_x (pl_rect p), rect_y (ob_rect ob) - rect_y (pl_rect p))
      \<noteq> None)"

subsection \<open>Parallax\<close>

definition update_parallax :: "real list \<Rightarrow> Surface list \<Rightarrow> real \<Rightarrow> real \<Rightarrow> real list" where
  "update_parallax offsets layers current_speed dt =
     map (\<lambda>i.
        if i < length offsets then
          (let scroll_amount = (real i + 10) * current_speed * 3 * dt;
               layer_width = of_int (surf_width (layers ! i));
               new_offset = offsets ! i - scroll_amount
           in if new_offset \<le> - layer_width then new_offset + layer_width else new_offset)
        else 0)
       [0..<length layers]"

text \<open>The same function in \<^verbatim>\<open>python-endless-runner-main/endless_runner.py\<close>, the older
  variant of the program: other weights, and the offset is set back to 0 once its
  magnitude passes the width of the layer.\<close>

definition update_parallax_main :: "real list \<Rightarrow> Surface list \<Rightarrow> real \<Rightarrow> real \<Rightarrow> real list" where
  "update_parallax_main offsets layers current_speed dt =
     map (\<lambda>i.
        if i < length offsets then
          (let scroll_amount = (real i + 1) * current_speed * (1 / 2) * dt;
               new_offset = offsets ! i - scroll_amount
           in if \<bar>new_offset\<bar> > of_int (surf_width (layers ! i)) then 0 else new_offset)
        else 0)
       [0..<length layers]"

subsection \<open>What the program finds on the machine\<close>

text \<open>The asset files, the mixer, the fonts and the random generator are parameters:
  \<open>player_files\<close> and \<open>obstacle_files\<close> are what the loaders return (see
  \<open>Player_init\<close> and \<open>Obstacle_init\<close>), \<open>mixer_ready\<close> says whether mixer calls succeed,
  \<open>music_paths\<close> is the list of that name (empty when loading the first track failed),
  \<open>random_raw k\<close> is the number behind the \<open>k\<close>-th call of the random module, and the three
  heights are \<^verbatim>\<open>get_height()\<close> of the menu font, the button font and the 60 point title
  font.\<close>

record Assets =
  player_files :: "((nat \<Rightarrow> Surface) \<times> (nat \<Rightarrow> Surface)) option"
  obstacle_files :: "Surface list"
  background_layers :: "Surface list"
  heart_sprites :: "Surface list"
  mixer_ready :: bool
  music_paths :: "string list"
  random_raw :: "nat \<Rightarrow> nat"
  menu_font_height :: int
  button_font_height :: int
  title_font_height :: int

subsection \<open>The global state\<close>

text \<open>The module's global variables. Obstacles are objects shared between the variable
  \<open>obstacle\<close> and the sprite group, so they live in a store (\<open>objects\<close>, indexed by
  reference) and both hold references; a sprite group is the list of its members.
  \<open>random_calls\<close> counts the calls made to the random module so far.\<close>

record Game =
  game_state :: State
  score :: int
  speed :: real
  parallax_offsets :: "real list"
  heart_sprite_index :: real
  current_track_index :: nat
  music_volume :: real
  player :: "Player option"
  obstacles_group :: "nat list option"
  obstacle :: "nat option"
  quit_game :: bool
  objects :: "Obstacle list"
  random_calls :: nat

definition initial_game :: Game where
  "initial_game =
     \<lparr>game_state = STATE_MAIN_MENU, score = 0, speed = 0, parallax_offsets = [],
      heart_sprite_index = 0, current_track_index = 0, music_volume = 7 / 10,
      player = None, obstacles_group = None, obstacle = None, quit_game = False,
      objects = [], random_calls = 0\<rparr>"

datatype error = AttributeError | IndexError

text \<open>Sprite groups: \<^verbatim>\<open>add\<close> skips a member, \<^verbatim>\<open>remove\<close> skips a non-member,
  \<^verbatim>\<open>update\<close> calls \<^verbatim>\<open>update\<close> on every member, and \<^verbatim>\<open>spritecollide\<close> lists the
  members that collide with the sprite.\<close>

definition Group_add :: "nat \<Rightarrow> nat list \<Rightarrow> nat list" where
  "Group_add r grp = (if r \<in> set grp then grp else grp @ [r])"

definition Group_remove :: "nat \<Rightarrow> nat list \<Rightarrow> nat list" where
  "Group_remove r grp = removeAll r grp"

definition update_object :: "real \<Rightarrow> nat \<Rightarrow> Obstacle list \<Rightarrow> Obstacle list" where
  "update_object dt r objs = objs[r := Obstacle_update dt (objs ! r)]"

definition Group_update :: "real \<Rightarrow> nat list \<Rightarrow> Obstacle list \<Rightarrow> Obstacle list" where
  "Group_update dt grp objs = fold (update_object dt) grp objs"

definition spritecollide :: "Player \<Rightarrow> nat list \<Rightarrow> Obstacle list \<Rightarrow> nat list" where
  "spritecollide p grp objs = filter (\<lambda>r. collide_mask p (objs ! r)) grp"

text \<open>\<^verbatim>\<open>Obstacle(speed)\<close> as a statement of the program: one call of the random module,
  a new object in the store; the result carries the reference of the new object.\<close>

definition new_Obstacle :: "Assets \<Rightarrow> real \<Rightarrow> Game \<Rightarrow> nat \<times> Game" where
  "new_Obstacle env speed_arg g =
     (length (objects g),
      g\<lparr>objects := objects g @
           [Obstacle_init (obstacle_files env) (random_raw env (random_calls g)) speed_arg],
        random_calls := random_calls g + 1\<rparr>)"

definition reset_game :: "Assets \<Rightarrow> Game \<Rightarrow> Game" where
  "reset_game env g =
     (let g = g\<lparr>score := 0, speed := STARTING_SPEED\<rparr>;
          g = g\<lparr>player := Some (Player_init (player_files env))\<rparr>;
          g = g\<lparr>obstacles_group := Some []\<rparr>;
          (r, g) = new_Obstacle env (speed g) g;
          g = g\<lparr>obstacle := Some r\<rparr>;
          g = g\<lparr>obstacles_group := map_option (Group_add r) (obstacles_group g)\<rparr>;
          g = g\<lparr>parallax_offsets := replicate (length (background_layers env)) 0\<rparr>;
          g = g\<lparr>heart_sprite_index := 0\<rparr>
      in g\<lparr>player := map_option (\<lambda>p. p\<lparr>invincibility_frame := 0\<rparr>) (player g)\<rparr>)"

subsection \<open>The playing state\<close>

datatype Key = K_SPACE | K_ESCAPE | K_OTHER nat

datatype Event = KEYDOWN Key | MOUSEBUTTONDOWN int "int \<times> int" | QUIT | OTHER_EVENT

text \<open>\<^verbatim>\<open>handle_playing\<close>, block by block. Input: the loop over the events.\<close>

definition playing_event :: "Event \<Rightarrow> Game \<Rightarrow> Game" where
  "playing_event e g =
     (case e of
        KEYDOWN k \<Rightarrow>
          (let g = (if k = K_SPACE then g\<lparr>player := map_option Player_jump (player g)\<rparr> else g)
           in if k = K_ESCAPE then g\<lparr>game_state := STATE_PAUSED\<rparr> else g)
      | _ \<Rightarrow> g)"

definition playing_input :: "Event list \<Rightarrow> Game \<Rightarrow> Game" where
  "playing_input events g = fold playing_event events g"

text \<open>Updates: the player, the obstacle (once through the variable and once more
  through the group), the parallax offsets.\<close>

definition playing_updates :: "Assets \<Rightarrow> real \<Rightarrow> Game \<Rightarrow> Game" where
  "playing_updates env dt g =
     (let g = g\<lparr>player := map_option (Player_update dt) (player g)\<rparr>;
          g = (case obstacle g of
                 Some r \<Rightarrow> g\<lparr>objects := update_object dt r (objects g)\<rparr>
               | None \<Rightarrow> g);
          g = (case obstacles_group g of
                 Some grp \<Rightarrow> g\<lparr>objects := Group_update dt grp (objects g)\<rparr>
               | None \<Rightarrow> g)
      in g\<lparr>parallax_offsets :=
             update_parallax (parallax_offsets g) (background_layers env) (speed g) dt\<rparr>)"

text \<open>Obstacle management: the obstacle has left the screen on the left.\<close>

definition passed :: "Game \<Rightarrow> bool" where
  "passed g = (case obstacle g of Some r \<Rightarrow> rect_right (ob_rect (objects g ! r)) < 0 | None \<Rightarrow> False)"

definition obstacle_management :: "Assets \<Rightarrow> Game \<Rightarrow> Game" where
  "obstacle_management env g =
     (case obstacle g of
        Some r \<Rightarrow>
          if rect_right (ob_rect (objects g ! r)) < 0 then
            (let g = g\<lparr>score := score g + 1\<rparr>;
                 g = (if score g mod SPEED_INCREASE_INTERVAL = 0 \<and> speed g < MAX_SPEED
                      then g\<lparr>speed := min MAX_SPEED (speed g + SPEED_INCREASE_AMOUNT)\<rparr>
                      else g);
                 g = g\<lparr>obstacles_group := map_option (Group_remove r) (obstacles_group g)\<rparr>;
                 (r', g) = new_Obstacle env (speed g) g;
                 g = g\<lparr>obstacle := Some r'\<rparr>
             in g\<lparr>obstacles_group := map_option (Group_add r') (obstacles_group g)\<rparr>)
          else g
      | None \<Rightarrow> g)"

text \<open>Collision detection.\<close>

definition collided_obstacles :: "Game \<Rightarrow> nat list" where
  "collided_obstacles g =
     (case (player g, obstacles_group g) of
        (Some p, Some grp) \<Rightarrow> spritecollide p grp (objects g)
      | _ \<Rightarrow> [])"

definition collision_detection :: "Assets \<Rightarrow> Game \<Rightarrow> Game" where
  "collision_detection env g =
     (case player g of
        Some p \<Rightarrow>
          if invincibility_frame p \<le> 0 then
            (case collided_obstacles g of
               collided_obstacle # _ \<Rightarrow>
                 (let p = p\<lparr>health := health p - 1\<rparr>;
                      p = p\<lparr>invincibility_frame := PLAYER_INVINCIBILITY_DURATION\<rparr>;
                      g = g\<lparr>player := Some p\<rparr>;
                      g = g\<lparr>obstacles_group :=
                             map_option (Group_remove collided_obstacle) (obstacles_group g)\<rparr>;
                      (r', g) = new_Obstacle env (speed g) g;
                      g = g\<lparr>obstacle := Some r'\<rparr>;
                      g = g\<lparr>obstacles_group := map_option (Group_add r') (obstacles_group g)\<rparr>
                  in if health p \<le> 0 then g\<lparr>game_state := STATE_GAME_OVER\<rparr> else g)
             | [] \<Rightarrow> g)
          else g
      | None \<Rightarrow> g)"

text \<open>Drawing changes one global: \<^verbatim>\<open>draw_hud\<close> advances the heart animation.\<close>

definition draw_hud :: "Assets \<Rightarrow> Game \<Rightarrow> Game" where
  "draw_hud env g =
     (if heart_sprites env \<noteq> []
      then g\<lparr>heart_sprite_index :=
               py_fmod (heart_sprite_index g + HEART_ANIMATION_SPEED) (length (heart_sprites env))\<rparr>
      else g)"

text \<open>Before \<^verbatim>\<open>reset_game\<close> has run the three object variables are \<open>None\<close>, and the first
  method call on one of them raises.\<close>

definition handle_playing :: "Assets \<Rightarrow> Event list \<Rightarrow> real \<Rightarrow> Game \<Rightarrow> error + Game" where
  "handle_playing env events dt g =
     (if player g = None \<or> obstacle g = None \<or> obstacles_group g = None
      then Inl AttributeError
      else Inr (draw_hud env
                 (collision_detection env
                   (obstacle_management env
                     (playing_updates env dt
                       (playing_input events g))))))"

subsection \<open>The menus\<close>

text \<open>The drawing functions return the rectangles of their buttons.
  \<^verbatim>\<open>pygame.Rect\<close> stores integers: fractional arguments are cut off.\<close>

definition Rect_new :: "real \<Rightarrow> real \<Rightarrow> real \<Rightarrow> real \<Rightarrow> Rect" where
  "Rect_new x0 y0 w h =
     \<lparr>rect_x = py_int x0, rect_y = py_int y0, rect_w = py_int w, rect_h = py_int h\<rparr>"

definition BOX_PADDING_Y :: real where "BOX_PADDING_Y = 20"
definition BUTTON_SPACING_Y :: real where "BUTTON_SPACING_Y = 10"
definition PAUSE_MENU_TITLE_PADDING :: real where "PAUSE_MENU_TITLE_PADDING = 20"

record MainMenuButtons =
  mm_start :: Rect
  mm_how_to_play :: Rect
  mm_settings :: Rect
  mm_quit :: Rect

definition draw_main_menu :: MainMenuButtons where
  "draw_main_menu =
     \<lparr>mm_start = Rect_new (of_int GAME_WIDTH / 2 - 100) (of_int GAME_HEIGHT / 2 - 30) 200 50,
      mm_how_to_play = Rect_new (of_int GAME_WIDTH / 2 - 100) (of_int GAME_HEIGHT / 2 + 30) 200 50,
      mm_settings = Rect_new (of_int GAME_WIDTH / 2 - 100) (of_int GAME_HEIGHT / 2 + 90) 200 50,
      mm_quit = Rect_new (of_int GAME_WIDTH / 2 - 100) (of_int GAME_HEIGHT / 2 + 150) 200 50\<rparr>"

record PauseButtons =
  pm_resume :: Rect
  pm_main_menu :: Rect
  pm_quit :: Rect

definition draw_pause_menu :: "Assets \<Rightarrow> PauseButtons" where
  "draw_pause_menu env =
     (let button_height = 50;
          box_y = (of_int GAME_HEIGHT - 300) / 2;
          title_height = of_int (title_font_height env);
          y0 = box_y + title_height + PAUSE_MENU_TITLE_PADDING + BOX_PADDING_Y;
          button_x = of_int GAME_WIDTH / 2 - 100;
          y1 = y0 + button_height + BUTTON_SPACING_Y;
          y2 = y1 + button_height + BUTTON_SPACING_Y
      in \<lparr>pm_resume = Rect_new button_x y0 200 button_height,
          pm_main_menu = Rect_new button_x y1 200 button_height,
          pm_quit = Rect_new button_x y2 200 button_height\<rparr>)"

definition draw_instructions_screen :: Rect where
  "draw_instructions_screen =
     Rect_new (of_int GAME_WIDTH / 2 - 100) (of_int GAME_HEIGHT * (75 / 100)) 200 50"

record SettingsButtons =
  st_volume_minus :: Rect
  st_volume_plus :: Rect
  st_back :: Rect
  st_track_0 :: Rect
  st_track_1 :: Rect

definition draw_settings_screen :: "Assets \<Rightarrow> SettingsButtons" where
  "draw_settings_screen env =
     (let box_height = of_int GAME_HEIGHT * (6 / 10);
          box_y = (of_int GAME_HEIGHT - box_height) / 2;
          volume_y = box_y + BOX_PADDING_Y + of_int (menu_font_height env) + BOX_PADDING_Y;
          track_y = volume_y + 80
      in \<lparr>st_volume_minus = Rect_new (of_int GAME_WIDTH / 2 - 120) (volume_y + 20) 50 40,
          st_volume_plus = Rect_new (of_int GAME_WIDTH / 2 + 70) (volume_y + 20) 50 40,
          st_back = Rect_new (of_int GAME_WIDTH / 2 - 100) (box_y + box_height - 60) 200 50,
          st_track_0 = Rect_new (of_int GAME_WIDTH / 2 + (- 100)) (track_y + 20) 100 40,
          st_track_1 = Rect_new (of_int GAME_WIDTH / 2 + 50) (track_y + 20) 100 40\<rparr>)"

record GameOverButtons =
  go_retry :: Rect
  go_menu :: Rect

definition draw_game_over_screen :: "Assets \<Rightarrow> GameOverButtons" where
  "draw_game_over_screen env =
     (let button_height = 50;
          num_buttons = 2;
          title_height = of_int (menu_font_height env);
          score_text_height = of_int (button_font_height env);
          buttons_total_height = num_buttons * button_height + (num_buttons - 1) * BUTTON_SPACING_Y;
          content_height = title_height + score_text_height + buttons_total_height + BOX_PADDING_Y * 4;
          box_height = content_height;
          box_y = (of_int GAME_HEIGHT - box_height) / 2;
          title_y = box_y + BOX_PADDING_Y;
          score_text_y = title_y + title_height + BOX_PADDING_Y;
          y0 = score_text_y + score_text_height + BOX_PADDING_Y;
          button_x = of_int GAME_WIDTH / 2 - 100;
          y1 = y0 + button_height + BUTTON_SPACING_Y
      in \<lparr>go_retry = Rect_new button_x y0 200 button_height,
          go_menu = Rect_new button_x y1 200 button_height\<rparr>)"

text \<open>Starting the music when a game starts: \<^verbatim>\<open>stop\<close>, then \<^verbatim>\<open>load(music_paths[...])\<close>
  inside a \<^verbatim>\<open>try\<close> that catches pygame's own errors only. Without a mixer \<^verbatim>\<open>stop\<close>
  raises such an error and the rest is skipped; with one, an index outside \<open>music_paths\<close>
  is an \<open>IndexError\<close> that nothing catches.\<close>

definition play_music :: "Assets \<Rightarrow> Game \<Rightarrow> error + Game" where
  "play_music env g =
     (if mixer_ready env \<and> \<not> current_track_index g < length (music_paths env)
      then Inl IndexError else Inr g)"

definition switch_music_track :: "Assets \<Rightarrow> nat \<Rightarrow> Game \<Rightarrow> error + Game" where
  "switch_music_track env track_index g =
     (if track_index \<noteq> current_track_index g \<and> music_paths env \<noteq> []
      then play_music env (g\<lparr>current_track_index := track_index\<rparr>)
      else Inr g)"

text \<open>A \<^verbatim>\<open>for event in events\<close> loop whose body may raise.\<close>

fun for_events :: "(Event \<Rightarrow> Game \<Rightarrow> error + Game) \<Rightarrow> Event list \<Rightarrow> Game \<Rightarrow> error + Game" where
  "for_events body [] g = Inr g"
| "for_events body (e # es) g =
     (case body e g of Inl err \<Rightarrow> Inl err | Inr g' \<Rightarrow> for_events body es g')"

definition main_menu_event :: "Assets \<Rightarrow> Event \<Rightarrow> Game \<Rightarrow> error + Game" where
  "main_menu_event env e g =
     (case e of
        MOUSEBUTTONDOWN button mouse_pos \<Rightarrow>
          if button = 1 then
            (if collidepoint (mm_start draw_main_menu) mouse_pos
               then play_music env ((reset_game env g)\<lparr>game_state := STATE_PLAYING\<rparr>)
             else if collidepoint (mm_how_to_play draw_main_menu) mouse_pos
               then Inr (g\<lparr>game_state := STATE_INSTRUCTIONS\<rparr>)
             else if collidepoint (mm_settings draw_main_menu) mouse_pos
               then Inr (g\<lparr>game_state := STATE_SETTINGS\<rparr>)
             else if collidepoint (mm_quit draw_main_menu) mouse_pos
               then Inr (g\<lparr>quit_game := True\<rparr>)
             else Inr g)
          else Inr g
      | _ \<Rightarrow> Inr g)"

definition handle_main_menu :: "Assets \<Rightarrow> Event list \<Rightarrow> Game \<Rightarrow> error + Game" where
  "handle_main_menu env events g = for_events (main_menu_event env) events g"

definition instructions_event :: "Event \<Rightarrow> Game \<Rightarrow> error + Game" where
  "instructions_event e g =
     (case e of
        MOUSEBUTTONDOWN button mouse_pos \<Rightarrow>
          if button = 1 then
            (if collidepoint draw_instructions_screen mouse_pos
             then Inr (g\<lparr>game_state := STATE_MAIN_MENU\<rparr>) else Inr g)
          else Inr g
      | KEYDOWN k \<Rightarrow> if k = K_ESCAPE then Inr (g\<lparr>game_state := STATE_MAIN_MENU\<rparr>) else Inr g
      | _ \<Rightarrow> Inr g)"

definition handle_instructions :: "Event list \<Rightarrow> Game \<Rightarrow> error + Game" where
  "handle_instructions events g = for_events instructions_event events g"

definition settings_event :: "Assets \<Rightarrow> Event \<Rightarrow> Game \<Rightarrow> error + Game" where
  "settings_event env e g =
     (let buttons = draw_settings_screen env in
      case e of
        MOUSEBUTTONDOWN button mouse_pos \<Rightarrow>
          if button = 1 then
            (if collidepoint (st_back buttons) mouse_pos
               then Inr (g\<lparr>game_state := STATE_MAIN_MENU\<rparr>)
             else if collidepoint (st_volume_minus buttons) mouse_pos
               then Inr (g\<lparr>music_volume := max 0 (music_volume g - VOLUME_STEP)\<rparr>)
             else if collidepoint (st_volume_plus buttons) mouse_pos
               then Inr (g\<lparr>music_volume := min 1 (music_volume g + VOLUME_STEP)\<rparr>)
             else if rect_truthy (st_track_0 buttons) \<and> collidepoint (st_track_0 buttons) mouse_pos
               then switch_music_track env 0 g
             else if rect_truthy (st_track_1 buttons) \<and> collidepoint (st_track_1 buttons) mouse_pos
               then switch_music_track env 1 g
             else Inr g)
          else Inr g
      | KEYDOWN k \<Rightarrow> if k = K_ESCAPE then Inr (g\<lparr>game_state := STATE_MAIN_MENU\<rparr>) else Inr g
      | _ \<Rightarrow> Inr g)"

definition handle_settings :: "Assets \<Rightarrow> Event list \<Rightarrow> Game \<Rightarrow> error + Game" where
  "handle_settings env events g = for_events (settings_event env) events g"

text \<open>In the pause menu the buttons are tried in the order of the dictionary and the
  first one under the mouse decides.\<close>

definition pause_event :: "Assets \<Rightarrow> Event \<Rightarrow> Game \<Rightarrow> error + Game" where
  "pause_event env e g =
     (let buttons = draw_pause_menu env in
      case e of
        KEYDOWN k \<Rightarrow> if k = K_ESCAPE then Inr (g\<lparr>game_state := STATE_PLAYING\<rparr>) else Inr g
      | MOUSEBUTTONDOWN button mouse_pos \<Rightarrow>
          if button = 1 then
            (if collidepoint (pm_resume buttons) mouse_pos
               then Inr (g\<lparr>game_state := STATE_PLAYING\<rparr>)
             else if collidepoint (pm_main_menu buttons) mouse_pos
               then Inr (g\<lparr>game_state := STATE_MAIN_MENU\<rparr>)
             else if collidepoint (pm_quit buttons) mouse_pos
               then Inr (g\<lparr>quit_game := True\<rparr>)
             else Inr g)
          else Inr g
      | _ \<Rightarrow> Inr g)"

definition handle_pause :: "Assets \<Rightarrow> Event list \<Rightarrow> Game \<Rightarrow> error + Game" where
  "handle_pause env events g = for_events (pause_event env) events g"

definition game_over_event :: "Assets \<Rightarrow> Event \<Rightarrow> Game \<Rightarrow> error + Game" where
  "game_over_event env e g =
     (let buttons = draw_game_over_screen env in
      case e of
        MOUSEBUTTONDOWN button mouse_pos \<Rightarrow>
          if button = 1 then
            (if collidepoint (go_retry buttons) mouse_pos
               then play_music env ((reset_game env g)\<lparr>game_state := STATE_PLAYING\<rparr>)
             else if collidepoint (go_menu buttons) mouse_pos
               then Inr (g\<lparr>game_state := STATE_MAIN_MENU\<rparr>)
             else Inr g)
          else Inr g
      | _ \<Rightarrow> Inr g)"

definition handle_game_over :: "Assets \<Rightarrow> Event list \<Rightarrow> Game \<Rightarrow> error + Game" where
  "handle_game_over env events g = for_events (game_over_event env) events g"

subsection \<open>The main loop\<close>

text \<open>One frame: \<open>ticks\<close> is what \<^verbatim>\<open>clock.tick(FPS)\<close> returns (milliseconds) and
  \<open>frame_events\<close> what \<^verbatim>\<open>pygame.event.get()\<close> returns.\<close>

record Frame =
  ticks :: nat
  frame_events :: "Event list"

definition main_step :: "Assets \<Rightarrow> Frame \<Rightarrow> Game \<Rightarrow> error + Game" where
  "main_step env fr g =
     (let dt = real (ticks fr) / 1000;
          events = frame_events fr;
          g = (if QUIT \<in> set events then g\<lparr>quit_game := True\<rparr> else g)
      in case game_state g of
           STATE_MAIN_MENU \<Rightarrow> handle_main_menu env events g
         | STATE_INSTRUCTIONS \<Rightarrow> handle_instructions events g
         | STATE_SETTINGS \<Rightarrow> handle_settings env events g
         | STATE_PLAYING \<Rightarrow> handle_playing env events dt g
         | STATE_PAUSED \<Rightarrow> handle_pause env events g
         | STATE_GAME_OVER \<Rightarrow> handle_game_over env events g)"

text \<open>The loop \<^verbatim>\<open>while not quit_game\<close>, run over the frames the machine delivers.\<close>

fun main_loop :: "Assets \<Rightarrow> Frame list \<Rightarrow> Game \<Rightarrow> error + Game" where
  "main_loop env [] g = Inr g"
| "main_loop env (fr # frs) g =
     (if quit_game g then Inr g
      else case main_step env fr g of Inl err \<Rightarrow> Inl err | Inr g' \<Rightarrow> main_loop env frs g')"

subsection \<open>Runs\<close>

text \<open>A player driven by any sequence of \<^verbatim>\<open>jump()\<close> and \<^verbatim>\<open>update(dt)\<close> calls.\<close>

datatype PlayerCall = Jump | Update real

fun Player_call :: "PlayerCall \<Rightarrow> Player \<Rightarrow> Player" where
  "Player_call Jump p = Player_jump p"
| "Player_call (Update dt) p = Player_update dt p"

definition Player_calls :: "PlayerCall list \<Rightarrow> Player \<Rightarrow> Player" where
  "Player_calls cs p = fold Player_call cs p"

text \<open>Consecutive frames of the playing state, each with its events and its \<open>dt\<close>.\<close>

fun playing_frames :: "Assets \<Rightarrow> (Event list \<times> real) list \<Rightarrow> Game \<Rightarrow> error + Game" where
  "playing_frames env [] g = Inr g"
| "playing_frames env (f # fs) g =
     (case handle_playing env (fst f) (snd f) g of
        Inl err \<Rightarrow> Inl err
      | Inr g' \<Rightarrow> playing_frames env fs g')"

text \<open>The state a frame of \<^verbatim>\<open>handle_playing\<close> has reached when obstacle management
  starts, and the state the collision detection reads.\<close>

definition after_updates :: "Assets \<Rightarrow> Event list \<Rightarrow> real \<Rightarrow> Game \<Rightarrow> Game" where
  "after_updates env events dt g = playing_updates env dt (playing_input events g)"

definition before_collision :: "Assets \<Rightarrow> Event list \<Rightarrow> real \<Rightarrow> Game \<Rightarrow> Game" where
  "before_collision env events dt g = obstacle_management env (after_updates env events dt g)"

text \<open>The single-obstacle design: the group holds the object of the variable
  \<open>obstacle\<close> and nothing else.\<close>

definition single_obstacle :: "Game \<Rightarrow> bool" where
  "single_obstacle g =
     (case (obstacle g, obstacles_group g) of
        (Some r, Some grp) \<Rightarrow> grp = [r] \<and> r < length (objects g)
      | _ \<Rightarrow> False)"

text \<open>The ground rule of the player: on the ground while running, not below it while
  jumping (the \<open>y\<close> axis points down).\<close>

definition ground_ok :: "Player \<Rightarrow> bool" where
  "ground_ok p =
     ((action p = Running \<longrightarrow> pl_y p = of_int PLAYER_LAND_Y) \<and>
      (action p = Jumping \<longrightarrow> pl_y p \<le> of_int PLAYER_LAND_Y))"

text \<open>The obstacle of the variable \<open>obstacle\<close> is the one member of the group and
  carries the global speed.\<close>

definition obstacle_ok :: "Game \<Rightarrow> bool" where
  "obstacle_ok g = (single_obstacle g \<and>
     (case obstacle g of Some r \<Rightarrow> game_speed (objects g ! r) = speed g | None \<Rightarrow> False))"

text \<open>What holds of the globals in every state of a run of the program: the speed is
  capped; once a game has been started there is a player whose health lies between 0
  and the starting health, one obstacle, and the obstacle moves at the global speed;
  while playing or paused the player is alive, and the game is over only at health 0.\<close>

definition session_ok :: "Game \<Rightarrow> bool" where
  "session_ok g =
     (speed g \<le> MAX_SPEED \<and>
      (case player g of
         None \<Rightarrow> game_state g \<notin> {STATE_PLAYING, STATE_PAUSED, STATE_GAME_OVER}
       | Some p \<Rightarrow>
           0 \<le> health p \<and> health p \<le> PLAYER_START_HEALTH \<and>
           (game_state g \<in> {STATE_PLAYING, STATE_PAUSED} \<longrightarrow> 1 \<le> health p) \<and>
           (game_state g = STATE_GAME_OVER \<longrightarrow> health p = 0) \<and>
           STARTING_SPEED \<le> speed g \<and> obstacle_ok g))"

text \<open>The player stands at \<open>PLAYER_START_X\<close> and each of its sprites is narrower than
  the screen to the right of that position; the same of the sprite files of the
  machine (the placeholder of \<^verbatim>\<open>Player.__init__\<close> is 50 wide).\<close>

definition player_fits :: "Player \<Rightarrow> bool" where
  "player_fits p =
     (pl_x p = PLAYER_START_X \<and> running_sprites p \<noteq> [] \<and> jumping_sprites p \<noteq> [] \<and>
      (\<forall>img \<in> set (running_sprites p @ jumping_sprites p).
         surf_width img < GAME_WIDTH - PLAYER_START_X))"

definition sprites_fit :: "Assets \<Rightarrow> bool" where
  "sprites_fit env =
     (case player_files env of
        None \<Rightarrow> True
      | Some (run, jump) \<Rightarrow>
          (\<forall>i < 8. surf_width (run i) < GAME_WIDTH - PLAYER_START_X \<and>
                   surf_width (jump i) < GAME_WIDTH - PLAYER_START_X))"

text \<open>The player of the session, if there is one, fits.\<close>

definition session_fits :: "Game \<Rightarrow> bool" where
  "session_fits g = (case player g of None \<Rightarrow> True | Some p \<Rightarrow> player_fits p)"

text \<open>The two events that leave the game-over screen: a left click on Retry or on
  Main Menu.\<close>

definition leaves_game_over :: "Assets \<Rightarrow> Event \<Rightarrow> bool" where
  "leaves_game_over env e =
     (case e of
        MOUSEBUTTONDOWN button mouse_pos \<Rightarrow>
          button = 1 \<and>
          (collidepoint (go_retry (draw_game_over_screen env)) mouse_pos \<or>
           collidepoint (go_menu (draw_game_over_screen env)) mouse_pos)
      | _ \<Rightarrow> False)"

subsection \<open>Example values\<close>

text \<open>A small obstacle sprite (2 by 2, all pixels opaque), a player sprite of the
  player's height whose two bottom pixels are opaque, a player built from it, a machine
  with these images, and the session \<^verbatim>\<open>reset_game()\<close> starts on it from the main menu.\<close>

definition example_sprite :: Surface where
  "example_sprite = \<lparr>surf_width = 2, surf_height = 2, surf_opaque = [(0, 0), (1, 0), (0, 1), (1, 1)]\<rparr>"

definition example_runner :: Surface where
  "example_runner = \<lparr>surf_width = 2, surf_height = 150, surf_opaque = [(0, 149), (1, 149)]\<rparr>"

definition example_player :: Player where
  "example_player = Player_init (Some (\<lambda>i. example_runner, \<lambda>i. example_runner))"

definition example_layer :: Surface where
  "example_layer = \<lparr>surf_width = 768, surf_height = 432, surf_opaque = []\<rparr>"

definition example_env :: Assets where
  "example_env =
     \<lparr>player_files = Some (\<lambda>i. example_runner, \<lambda>i. example_runner),
      obstacle_files = [example_sprite, example_sprite, example_sprite, example_sprite],
      background_layers = [example_layer, example_layer, example_layer, example_layer],
      heart_sprites = replicate 8 example_sprite,
      mixer_ready = True,
      music_paths = [''sounds/Soundtrack.mp3'', ''sounds/Soundtrack11.mp3''],
      random_raw = (\<lambda>k. k),
      menu_font_height = 40, button_font_height = 30, title_font_height = 60\<rparr>"

definition example_game :: Game where
  "example_game = (reset_game example_env initial_game)\<lparr>game_state := STATE_PLAYING\<rparr>"

text \<open>The same session with \<open>hp\<close> hearts left and \<open>t\<close> frames of invincibility to go.
  A frame of 1290 ms (\<open>dt = 1.29\<close>) moves the obstacle from 800 to 26, onto the player.\<close>

definition example_session :: "int \<Rightarrow> int \<Rightarrow> Game" where
  "example_session hp t =
     example_game\<lparr>player := Some (example_player\<lparr>health := hp, invincibility_frame := t\<rparr>)\<rparr>"

definition example_hit_dt :: real where
  "example_hit_dt = 129 / 100"

text \<open>The frame in which the player clicks Start in the main menu, 16 ms after the
  previous one.\<close>

definition example_start_frame :: Frame where
  "example_start_frame = \<lparr>ticks = 16, frame_events = [MOUSEBUTTONDOWN 1 (400, 200)]\<rparr>"

section \<open>Properties\<close>

subsection \<open>What each block of a frame leaves alone\<close>

lemma playing_event_frame [simp]:
  "score (playing_event e g) = score g" "speed (playing_event e g) = speed g"
  "obstacle (playing_event e g) = obstacle g"
  "obstacles_group (playing_event e g) = obstacles_group g"
  "objects (playing_event e g) = objects g"
  "random_calls (playing_event e g) = random_calls g"
  by (simp_all add: playing_event_def Let_def split: Event.splits)

lemma playing_input_frame [simp]:
  "score (playing_input events g) = score g" "speed (playing_input events g) = speed g"
  "obstacle (playing_input events g) = obstacle g"
  "obstacles_group (playing_input events g) = obstacles_group g"
  "objects (playing_input events g) = objects g"
  "random_calls (playing_input events g) = random_calls g"
  unfolding playing_input_def by (induction events arbitrary: g; simp)+

lemma playing_updates_frame [simp]:
  "score (playing_updates env dt g) = score g" "speed (playing_updates env dt g) = speed g"
  "obstacle (playing_updates env dt g) = obstacle g"
  "obstacles_group (playing_updates env dt g) = obstacles_group g"
  "game_state (playing_updates env dt g) = game_state g"
  "random_calls (playing_updates env dt g) = random_calls g"
  by (simp_all add: playing_updates_def Let_def split: option.splits)

lemma after_updates_frame [simp]:
  "score (after_updates env events dt g) = score g"
  "speed (after_updates env events dt g) = speed g"
  "obstacle (after_updates env events dt g) = obstacle g"
  "obstacles_group (after_updates env events dt g) = obstacles_group g"
  by (simp_all add: after_updates_def)

lemma obstacle_management_score:
  "score (obstacle_management env g) = score g + (if passed g then 1 else 0)"
  by (simp add: obstacle_management_def passed_def new_Obstacle_def Let_def split: option.splits)

lemma obstacle_management_speed:
  "speed (obstacle_management env g) =
     (if passed g \<and> (score g + 1) mod SPEED_INCREASE_INTERVAL = 0 \<and> speed g < MAX_SPEED
      then min MAX_SPEED (speed g + SPEED_INCREASE_AMOUNT) else speed g)"
  by (simp add: obstacle_management_def passed_def new_Obstacle_def Let_def split: option.splits)

lemma obstacle_management_frame [simp]:
  "player (obstacle_management env g) = player g"
  "game_state (obstacle_management env g) = game_state g"
  by (simp_all add: obstacle_management_def new_Obstacle_def Let_def split: option.splits)

lemma collision_detection_frame [simp]:
  "score (collision_detection env g) = score g" "speed (collision_detection env g) = speed g"
  by (simp_all add: collision_detection_def new_Obstacle_def Let_def
        split: option.splits list.splits)

lemma draw_hud_frame [simp]:
  "score (draw_hud env g) = score g" "speed (draw_hud env g) = speed g"
  "player (draw_hud env g) = player g" "game_state (draw_hud env g) = game_state g"
  "obstacle (draw_hud env g) = obstacle g" "obstacles_group (draw_hud env g) = obstacles_group g"
  "objects (draw_hud env g) = objects g"
  by (simp_all add: draw_hud_def)

lemma handle_playing_Inr:
  "handle_playing env events dt g = Inr g' \<Longrightarrow>
     g' = draw_hud env (collision_detection env (before_collision env events dt g))"
  by (simp add: handle_playing_def before_collision_def after_updates_def split: if_splits)

lemma handle_playing_score:
  assumes "handle_playing env events dt g = Inr g'"
  shows "score g' = score g + (if passed (after_updates env events dt g) then 1 else 0)"
  using handle_playing_Inr [OF assms]
  by (simp add: before_collision_def obstacle_management_score)

lemma handle_playing_speed:
  assumes "handle_playing env events dt g = Inr g'"
  shows "speed g' =
     (if passed (after_updates env events dt g) \<and> (score g + 1) mod SPEED_INCREASE_INTERVAL = 0
         \<and> speed g < MAX_SPEED
      then min MAX_SPEED (speed g + SPEED_INCREASE_AMOUNT) else speed g)"
  using handle_playing_Inr [OF assms]
  by (simp add: before_collision_def obstacle_management_speed)

lemma reset_game_fields [simp]:
  "score (reset_game env g) = 0" "speed (reset_game env g) = STARTING_SPEED"
  by (simp_all add: reset_game_def new_Obstacle_def Let_def)

lemma Obstacle_update_x:
  "ob_x (Obstacle_update dt ob) = ob_x ob - game_speed ob * dt * of_int FPS"
  by (simp add: Obstacle_update_def Let_def)

lemma Obstacle_update_speed [simp]: "game_speed (Obstacle_update dt ob) = game_speed ob"
  by (simp add: Obstacle_update_def Let_def)

subsection \<open>The player on the ground\<close>

lemma ground_ok_physics: "ground_ok p \<Longrightarrow> ground_ok (Player_physics p)"
  by (cases "action p") (auto simp: ground_ok_def Player_physics_def Let_def)

lemma Player_animation_fields [simp]:
  "action (Player_animation p) = action p" "pl_y (Player_animation p) = pl_y p"
  "vel_y (Player_animation p) = vel_y p" "health (Player_animation p) = health p"
  "invincibility_frame (Player_animation p) = invincibility_frame p"
  "pl_x (Player_animation p) = pl_x p"
  by (cases "action p"; simp add: Player_animation_def Let_def)+

lemma Player_image_fields [simp]:
  "action (Player_image p) = action p" "pl_y (Player_image p) = pl_y p"
  "vel_y (Player_image p) = vel_y p" "health (Player_image p) = health p"
  "invincibility_frame (Player_image p) = invincibility_frame p"
  "pl_x (Player_image p) = pl_x p"
  by (simp_all add: Player_image_def Let_def)

lemma Player_timer_fields [simp]:
  "action (Player_timer p) = action p" "pl_y (Player_timer p) = pl_y p"
  "vel_y (Player_timer p) = vel_y p" "health (Player_timer p) = health p"
  "pl_x (Player_timer p) = pl_x p" "pl_rect (Player_timer p) = pl_rect p"
  "pl_mask (Player_timer p) = pl_mask p"
  by (simp_all add: Player_timer_def)

lemma Player_physics_fields [simp]:
  "health (Player_physics p) = health p"
  "invincibility_frame (Player_physics p) = invincibility_frame p"
  "pl_x (Player_physics p) = pl_x p"
  "running_sprites (Player_physics p) = running_sprites p"
  "jumping_sprites (Player_physics p) = jumping_sprites p"
  by (cases "action p"; simp add: Player_physics_def Let_def)+

lemma ground_ok_update: "ground_ok p \<Longrightarrow> ground_ok (Player_update dt p)"
  using ground_ok_physics [of p] by (simp add: Player_update_def ground_ok_def)

lemma ground_ok_jump: "ground_ok p \<Longrightarrow> ground_ok (Player_jump p)"
  by (auto simp: ground_ok_def Player_jump_def)

lemma ground_ok_init: "ground_ok (Player_init files)"
  by (simp add: ground_ok_def Player_init_def Let_def)

lemma ground_ok_calls: "ground_ok p \<Longrightarrow> ground_ok (Player_calls cs p)"
  unfolding Player_calls_def
proof (induction cs arbitrary: p)
  case Nil
  then show ?case by simp
next
  case (Cons c cs)
  then show ?case by (cases c) (simp_all add: ground_ok_update ground_ok_jump)
qed

lemma Player_update_lands:
  assumes "action q = Jumping" "running_sprites q \<noteq> []" "jumping_sprites q \<noteq> []"
    "pl_y q + vel_y q \<ge> of_int PLAYER_LAND_Y"
  shows "pl_y (Player_update dt q) = of_int PLAYER_LAND_Y \<and>
         action (Player_update dt q) = Running \<and> vel_y (Player_update dt q) = 0"
  using assms by (simp add: Player_update_def Player_physics_def Let_def)

lemma Player_update_health [simp]: "health (Player_update dt p) = health p"
  by (simp add: Player_update_def)

lemma Player_jump_fields [simp]:
  "health (Player_jump p) = health p"
  "invincibility_frame (Player_jump p) = invincibility_frame p"
  "pl_x (Player_jump p) = pl_x p" "pl_rect (Player_jump p) = pl_rect p"
  "pl_mask (Player_jump p) = pl_mask p"
  "running_sprites (Player_jump p) = running_sprites p"
  "jumping_sprites (Player_jump p) = jumping_sprites p"
  by (simp_all add: Player_jump_def)

lemma Player_update_timer:
  "invincibility_frame (Player_update dt p) =
     (if running_sprites p \<noteq> [] \<and> jumping_sprites p \<noteq> [] \<and> 0 < invincibility_frame p
      then invincibility_frame p - 1 else invincibility_frame p)"
  by (simp add: Player_update_def Player_timer_def)

subsection \<open>One obstacle, shared by the variable and the group\<close>

lemma single_obstacleD:
  "single_obstacle g \<Longrightarrow> \<exists>r. obstacle g = Some r \<and> obstacles_group g = Some [r] \<and> r < length (objects g)"
  by (auto simp: single_obstacle_def split: option.splits)

lemma single_obstacleI:
  "obstacle g = Some r \<Longrightarrow> obstacles_group g = Some [r] \<Longrightarrow> r < length (objects g) \<Longrightarrow> single_obstacle g"
  by (simp add: single_obstacle_def)

lemma playing_input_single [simp]: "single_obstacle (playing_input events g) = single_obstacle g"
  by (simp add: single_obstacle_def split: option.splits)

lemma playing_updates_objects:
  assumes "obstacle g = Some r" "obstacles_group g = Some [r]"
  shows "objects (playing_updates env dt g) =
           (objects g)[r := Obstacle_update dt (Obstacle_update dt (objects g ! r))]"
proof (cases "r < length (objects g)")
  case True
  then show ?thesis using assms
    by (simp add: playing_updates_def Let_def Group_update_def update_object_def)
next
  case False
  then show ?thesis using assms
    by (simp add: playing_updates_def Let_def Group_update_def update_object_def
          list_update_beyond)
qed

lemma playing_updates_single [simp]: "single_obstacle (playing_updates env dt g) = single_obstacle g"
proof (cases "\<exists>r. obstacle g = Some r \<and> obstacles_group g = Some [r]")
  case True
  then obtain r where r: "obstacle g = Some r" "obstacles_group g = Some [r]" by blast
  show ?thesis
    by (simp add: single_obstacle_def r playing_updates_objects [OF r] split: option.splits)
next
  case False
  then show ?thesis
    by (auto simp: single_obstacle_def split: option.splits)
qed

lemma playing_updates_player [simp]:
  "player (playing_updates env dt g) = map_option (Player_update dt) (player g)"
  by (simp add: playing_updates_def Let_def split: option.splits)

lemma obstacle_management_passed:
  assumes "obstacle g = Some r" "obstacles_group g = Some [r]" "passed g"
  shows "obstacle (obstacle_management env g) = Some (length (objects g))"
    "obstacles_group (obstacle_management env g) = Some [length (objects g)]"
    "objects (obstacle_management env g) =
       objects g @ [Obstacle_init (obstacle_files env) (random_raw env (random_calls g))
                      (speed (obstacle_management env g))]"
  using assms
  by (simp_all add: obstacle_management_def passed_def new_Obstacle_def Let_def Group_add_def
        Group_remove_def)

lemma obstacle_management_not_passed: "\<not> passed g \<Longrightarrow> obstacle_management env g = g"
  by (simp add: obstacle_management_def passed_def split: option.splits)

lemma Obstacle_init_speed [simp]: "game_speed (Obstacle_init loaded r sp) = sp"
  by (simp add: Obstacle_init_def Let_def)

lemma Obstacle_init_x [simp]: "ob_x (Obstacle_init loaded r sp) = of_int GAME_WIDTH"
  "rect_x (ob_rect (Obstacle_init loaded r sp)) = GAME_WIDTH"
  by (simp_all add: Obstacle_init_def Let_def get_rect_def)

lemma collided_single:
  assumes "player g = Some p" "obstacles_group g = Some [r]"
  shows "collided_obstacles g = (if collide_mask p (objects g ! r) then [r] else [])"
  using assms by (simp add: collided_obstacles_def spritecollide_def)

lemma collision_detection_hit:
  assumes "player g = Some p" "obstacles_group g = Some [r]" "invincibility_frame p \<le> 0"
    "collide_mask p (objects g ! r)"
  shows "player (collision_detection env g) =
           Some (p\<lparr>health := health p - 1, invincibility_frame := PLAYER_INVINCIBILITY_DURATION\<rparr>)"
    "obstacle (collision_detection env g) = Some (length (objects g))"
    "obstacles_group (collision_detection env g) = Some [length (objects g)]"
    "objects (collision_detection env g) =
       objects g @ [Obstacle_init (obstacle_files env) (random_raw env (random_calls g)) (speed g)]"
    "game_state (collision_detection env g) =
       (if health p - 1 \<le> 0 then STATE_GAME_OVER else game_state g)"
  using assms
  by (simp_all add: collision_detection_def collided_single [OF assms(1,2)] new_Obstacle_def
        Let_def Group_add_def Group_remove_def)

lemma collision_detection_miss:
  assumes "player g = Some p" "obstacles_group g = Some [r]"
    "invincibility_frame p > 0 \<or> \<not> collide_mask p (objects g ! r)"
  shows "collision_detection env g = g"
  using assms
  by (auto simp: collision_detection_def collided_single [OF assms(1,2)])

subsection \<open>The obstacle keeps the global speed\<close>

lemma playing_event_player:
  "player g = Some p \<Longrightarrow> \<exists>p'. player (playing_event e g) = Some p' \<and> health p' = health p
      \<and> invincibility_frame p' = invincibility_frame p"
  by (auto simp: playing_event_def Let_def split: Event.splits)

lemma playing_input_player:
  "player g = Some p \<Longrightarrow> \<exists>p'. player (playing_input events g) = Some p' \<and> health p' = health p
      \<and> invincibility_frame p' = invincibility_frame p"
  unfolding playing_input_def
proof (induction events arbitrary: g p)
  case Nil
  then show ?case by simp
next
  case (Cons e es)
  from playing_event_player [OF Cons.prems, of e] obtain p1 where
    p1: "player (playing_event e g) = Some p1" "health p1 = health p"
      "invincibility_frame p1 = invincibility_frame p" by blast
  from Cons.IH [OF p1(1)] p1 show ?case by simp
qed

lemma playing_input_state:
  "game_state (playing_input events g) \<in> {game_state g, STATE_PAUSED}"
  unfolding playing_input_def
proof (induction events arbitrary: g)
  case Nil
  then show ?case by simp
next
  case (Cons e es)
  have "game_state (playing_event e g) \<in> {game_state g, STATE_PAUSED}"
    by (simp add: playing_event_def Let_def split: Event.splits)
  with Cons [of "playing_event e g"] show ?case by auto
qed

lemma obstacle_okD:
  "obstacle_ok g \<Longrightarrow> \<exists>r. obstacle g = Some r \<and> obstacles_group g = Some [r] \<and>
      r < length (objects g) \<and> game_speed (objects g ! r) = speed g"
  by (auto simp: obstacle_ok_def single_obstacle_def split: option.splits)

lemma obstacle_okI:
  "obstacle g = Some r \<Longrightarrow> obstacles_group g = Some [r] \<Longrightarrow> r < length (objects g) \<Longrightarrow>
   game_speed (objects g ! r) = speed g \<Longrightarrow> obstacle_ok g"
  by (simp add: obstacle_ok_def single_obstacle_def)

lemma obstacle_ok_input: "obstacle_ok g \<Longrightarrow> obstacle_ok (playing_input events g)"
  by (simp add: obstacle_ok_def split: option.splits)

lemma obstacle_ok_updates: "obstacle_ok g \<Longrightarrow> obstacle_ok (playing_updates env dt g)"
proof -
  assume "obstacle_ok g"
  from obstacle_okD [OF this] obtain r where r: "obstacle g = Some r"
    "obstacles_group g = Some [r]" "r < length (objects g)" "game_speed (objects g ! r) = speed g"
    by blast
  show ?thesis
    by (rule obstacle_okI [of _ r]) (simp_all add: r playing_updates_objects [OF r(1,2)])
qed

lemma obstacle_ok_management: "obstacle_ok g \<Longrightarrow> obstacle_ok (obstacle_management env g)"
proof -
  assume ok: "obstacle_ok g"
  from obstacle_okD [OF this] obtain r where r: "obstacle g = Some r"
    "obstacles_group g = Some [r]" "r < length (objects g)" "game_speed (objects g ! r) = speed g"
    by blast
  show ?thesis
  proof (cases "passed g")
    case True
    show ?thesis
      by (rule obstacle_okI [of _ "length (objects g)"])
         (simp_all add: obstacle_management_passed [OF r(1,2) True])
  next
    case False
    then show ?thesis using ok by (simp add: obstacle_management_not_passed)
  qed
qed

lemma obstacle_ok_collision:
  assumes "obstacle_ok g" "player g = Some p"
  shows "obstacle_ok (collision_detection env g)"
proof -
  from obstacle_okD [OF assms(1)] obtain r where r: "obstacle g = Some r"
    "obstacles_group g = Some [r]" "r < length (objects g)" "game_speed (objects g ! r) = speed g"
    by blast
  show ?thesis
  proof (cases "invincibility_frame p \<le> 0 \<and> collide_mask p (objects g ! r)")
    case True
    then have h: "invincibility_frame p \<le> 0" "collide_mask p (objects g ! r)" by auto
    show ?thesis
      by (rule obstacle_okI [of _ "length (objects g)"])
         (simp_all add: collision_detection_hit [OF assms(2) r(2) h])
  next
    case False
    then have "invincibility_frame p > 0 \<or> \<not> collide_mask p (objects g ! r)" by auto
    from collision_detection_miss [OF assms(2) r(2) this] assms(1) show ?thesis by simp
  qed
qed

lemma obstacle_ok_hud: "obstacle_ok g \<Longrightarrow> obstacle_ok (draw_hud env g)"
  by (simp add: obstacle_ok_def single_obstacle_def split: option.splits)

subsection \<open>The session invariant in the playing state\<close>

lemma session_okD:
  "session_ok g \<Longrightarrow> player g = Some p \<Longrightarrow>
     speed g \<le> MAX_SPEED \<and> 0 \<le> health p \<and> health p \<le> PLAYER_START_HEALTH \<and>
     (game_state g \<in> {STATE_PLAYING, STATE_PAUSED} \<longrightarrow> 1 \<le> health p) \<and>
     (game_state g = STATE_GAME_OVER \<longrightarrow> health p = 0) \<and>
     STARTING_SPEED \<le> speed g \<and> obstacle_ok g"
  by (simp add: session_ok_def)

lemma session_ok_player:
  "session_ok g \<Longrightarrow> game_state g \<in> {STATE_PLAYING, STATE_PAUSED, STATE_GAME_OVER} \<Longrightarrow>
     \<exists>p. player g = Some p"
  by (cases "player g") (auto simp: session_ok_def)

lemma session_okI:
  "player g = Some p \<Longrightarrow> speed g \<le> MAX_SPEED \<Longrightarrow> 0 \<le> health p \<Longrightarrow>
   health p \<le> PLAYER_START_HEALTH \<Longrightarrow>
   (game_state g \<in> {STATE_PLAYING, STATE_PAUSED} \<Longrightarrow> 1 \<le> health p) \<Longrightarrow>
   (game_state g = STATE_GAME_OVER \<Longrightarrow> health p = 0) \<Longrightarrow>
   STARTING_SPEED \<le> speed g \<Longrightarrow> obstacle_ok g \<Longrightarrow> session_ok g"
  by (simp add: session_ok_def)

lemma obstacle_management_speed_bounds:
  "speed g \<le> speed (obstacle_management env g)"
  "speed g \<le> MAX_SPEED \<Longrightarrow> speed (obstacle_management env g) \<le> MAX_SPEED"
  by (simp_all add: obstacle_management_speed SPEED_INCREASE_AMOUNT_def MAX_SPEED_def)

lemma session_ok_playing:
  assumes ok: "session_ok g" and st: "game_state g = STATE_PLAYING"
  shows "\<exists>g'. handle_playing env events dt g = Inr g' \<and> session_ok g' \<and>
           game_state g' \<in> {STATE_PLAYING, STATE_PAUSED, STATE_GAME_OVER}"
proof -
  from session_ok_player [OF ok] st obtain p where p: "player g = Some p" by auto
  note f = session_okD [OF ok p]
  from f st have hp: "1 \<le> health p" "health p \<le> PLAYER_START_HEALTH" by auto
  from f have sp: "STARTING_SPEED \<le> speed g" "speed g \<le> MAX_SPEED" and ob: "obstacle_ok g"
    by auto
  define g1 where "g1 = playing_input events g"
  define g2 where "g2 = playing_updates env dt g1"
  define g3 where "g3 = obstacle_management env g2"
  define g4 where "g4 = collision_detection env g3"
  from playing_input_player [OF p, of events] obtain p1 where
    p1: "player g1 = Some p1" "health p1 = health p" unfolding g1_def by blast
  have s1: "game_state g1 \<in> {STATE_PLAYING, STATE_PAUSED}"
    using playing_input_state [of events g] st unfolding g1_def by simp
  have o1: "obstacle_ok g1" unfolding g1_def by (rule obstacle_ok_input [OF ob])
  define p2 where "p2 = Player_update dt p1"
  have p2: "player g2 = Some p2" "health p2 = health p"
    unfolding g2_def p2_def by (simp_all add: p1)
  have o2: "obstacle_ok g2" unfolding g2_def by (rule obstacle_ok_updates [OF o1])
  have s2: "game_state g2 \<in> {STATE_PLAYING, STATE_PAUSED}" unfolding g2_def using s1 by simp
  have v2: "speed g2 = speed g" unfolding g2_def g1_def by simp
  have p3: "player g3 = Some p2" unfolding g3_def by (simp add: p2)
  have o3: "obstacle_ok g3" unfolding g3_def by (rule obstacle_ok_management [OF o2])
  have s3: "game_state g3 \<in> {STATE_PLAYING, STATE_PAUSED}" unfolding g3_def using s2 by simp
  have v3: "STARTING_SPEED \<le> speed g3" "speed g3 \<le> MAX_SPEED"
    unfolding g3_def
    using obstacle_management_speed_bounds [of g2 env] sp v2 by auto
  have o4: "obstacle_ok g4" unfolding g4_def by (rule obstacle_ok_collision [OF o3 p3])
  have v4: "speed g4 = speed g3" unfolding g4_def by simp
  from obstacle_okD [OF o3] obtain r where r: "obstacles_group g3 = Some [r]" by blast
  have "\<exists>p4. player g4 = Some p4 \<and> 0 \<le> health p4 \<and> health p4 \<le> PLAYER_START_HEALTH \<and>
          (game_state g4 \<in> {STATE_PLAYING, STATE_PAUSED} \<longrightarrow> 1 \<le> health p4) \<and>
          (game_state g4 = STATE_GAME_OVER \<longrightarrow> health p4 = 0) \<and>
          game_state g4 \<in> {STATE_PLAYING, STATE_PAUSED, STATE_GAME_OVER}"
  proof (cases "invincibility_frame p2 \<le> 0 \<and> collide_mask p2 (objects g3 ! r)")
    case True
    then have h: "invincibility_frame p2 \<le> 0" "collide_mask p2 (objects g3 ! r)" by auto
    note c = collision_detection_hit [OF p3 r h, of env]
    show ?thesis unfolding g4_def using c(1,5) hp p2(2) s3 by auto
  next
    case False
    then have "invincibility_frame p2 > 0 \<or> \<not> collide_mask p2 (objects g3 ! r)" by auto
    from collision_detection_miss [OF p3 r this] have "g4 = g3" unfolding g4_def by simp
    then show ?thesis using p3 hp p2(2) s3 by auto
  qed
  then obtain p4 where p4: "player g4 = Some p4" "0 \<le> health p4"
    "health p4 \<le> PLAYER_START_HEALTH"
    "game_state g4 \<in> {STATE_PLAYING, STATE_PAUSED} \<longrightarrow> 1 \<le> health p4"
    "game_state g4 = STATE_GAME_OVER \<longrightarrow> health p4 = 0"
    "game_state g4 \<in> {STATE_PLAYING, STATE_PAUSED, STATE_GAME_OVER}" by blast
  have ok5: "session_ok (draw_hud env g4)"
    by (rule session_okI [of _ p4]) (use p4 v3 v4 obstacle_ok_hud [OF o4] in simp_all)
  from obstacle_okD [OF ob] obtain r0 where "obstacle g = Some r0" "obstacles_group g = Some [r0]"
    by blast
  then have "handle_playing env events dt g = Inr (draw_hud env g4)"
    unfolding g4_def g3_def g2_def g1_def by (simp add: handle_playing_def p)
  with ok5 p4(6) show ?thesis by simp
qed

subsection \<open>The session invariant and the menus\<close>

lemma reset_game_session:
  "player (reset_game env g) = Some ((Player_init (player_files env))\<lparr>invincibility_frame := 0\<rparr>)"
  "obstacle (reset_game env g) = Some (length (objects g))"
  "obstacles_group (reset_game env g) = Some [length (objects g)]"
  "objects (reset_game env g) =
     objects g @ [Obstacle_init (obstacle_files env) (random_raw env (random_calls g)) STARTING_SPEED]"
  "game_state (reset_game env g) = game_state g"
  "quit_game (reset_game env g) = quit_game g"
  "parallax_offsets (reset_game env g) = replicate (length (background_layers env)) 0"
  "current_track_index (reset_game env g) = current_track_index g"
  by (simp_all add: reset_game_def new_Obstacle_def Let_def Group_add_def)

lemma Player_init_health [simp]: "health (Player_init files) = PLAYER_START_HEALTH"
  by (simp add: Player_init_def Let_def)

lemma session_ok_reset: "session_ok ((reset_game env g)\<lparr>game_state := STATE_PLAYING\<rparr>)"
proof (rule session_okI)
  show "player ((reset_game env g)\<lparr>game_state := STATE_PLAYING\<rparr>)
        = Some ((Player_init (player_files env))\<lparr>invincibility_frame := 0\<rparr>)"
    by (simp add: reset_game_session)
  show "obstacle_ok ((reset_game env g)\<lparr>game_state := STATE_PLAYING\<rparr>)"
    by (rule obstacle_okI [of _ "length (objects g)"]) (simp_all add: reset_game_session)
qed (simp_all add: constants)

lemma obstacle_ok_cong:
  "obstacle g' = obstacle g \<Longrightarrow> obstacles_group g' = obstacles_group g \<Longrightarrow>
   objects g' = objects g \<Longrightarrow> speed g' = speed g \<Longrightarrow> obstacle_ok g' = obstacle_ok g"
  by (simp add: obstacle_ok_def single_obstacle_def split: option.splits)

lemma session_ok_cong:
  "obstacle g' = obstacle g \<Longrightarrow> obstacles_group g' = obstacles_group g \<Longrightarrow>
   objects g' = objects g \<Longrightarrow> speed g' = speed g \<Longrightarrow> player g' = player g \<Longrightarrow>
   game_state g' = game_state g \<Longrightarrow> session_ok g' = session_ok g"
  using obstacle_ok_cong [of g' g] by (simp add: session_ok_def split: option.splits)

lemma session_ok_state:
  assumes "session_ok g" "st \<notin> {STATE_PLAYING, STATE_PAUSED, STATE_GAME_OVER}"
  shows "session_ok (g\<lparr>game_state := st\<rparr>)"
proof -
  have o: "obstacle_ok (g\<lparr>game_state := st\<rparr>) = obstacle_ok g"
    by (rule obstacle_ok_cong) simp_all
  show ?thesis using assms by (cases "player g") (auto simp: session_ok_def o)
qed

lemma session_ok_misc:
  "session_ok (g\<lparr>quit_game := q\<rparr>) = session_ok g"
  "session_ok (g\<lparr>music_volume := v\<rparr>) = session_ok g"
  "session_ok (g\<lparr>current_track_index := i\<rparr>) = session_ok g"
  by (rule session_ok_cong; simp)+

lemma play_music_Inr: "play_music env g = Inr g' \<Longrightarrow> g' = g"
  by (simp add: play_music_def split: if_splits)

lemma switch_music_track_ok:
  "switch_music_track env i g = Inr g' \<Longrightarrow> session_ok g \<Longrightarrow> session_ok g'"
  "switch_music_track env i g = Inr g' \<Longrightarrow> game_state g' = game_state g \<and> player g' = player g"
  by (auto simp: switch_music_track_def session_ok_misc dest!: play_music_Inr split: if_splits)

subsection \<open>Event loops\<close>

lemma for_events_invariant:
  assumes step: "\<And>e g g'. I g \<Longrightarrow> body e g = Inr g' \<Longrightarrow> I g'"
  shows "I g \<Longrightarrow> for_events body es g = Inr g' \<Longrightarrow> I g'"
proof (induction es arbitrary: g)
  case Nil
  then show ?case by simp
next
  case (Cons e es)
  from Cons.prems(2) obtain g1 where g1: "body e g = Inr g1" "for_events body es g1 = Inr g'"
    by (auto split: sum.splits)
  from step [OF Cons.prems(1) g1(1)] have "I g1" .
  from Cons.IH [OF this g1(2)] show ?case .
qed

lemma main_menu_event_ok:
  "session_ok g \<Longrightarrow> main_menu_event env e g = Inr g' \<Longrightarrow> session_ok g'"
  by (auto simp: main_menu_event_def session_ok_reset session_ok_state session_ok_misc
        dest!: play_music_Inr split: Event.splits if_splits)

lemma instructions_event_ok:
  "session_ok g \<Longrightarrow> instructions_event e g = Inr g' \<Longrightarrow> session_ok g'"
  by (auto simp: instructions_event_def session_ok_state split: Event.splits if_splits)

lemma settings_event_ok:
  "session_ok g \<Longrightarrow> settings_event env e g = Inr g' \<Longrightarrow> session_ok g'"
  by (auto simp: settings_event_def Let_def session_ok_state session_ok_misc
        dest: switch_music_track_ok(1) split: Event.splits if_splits)

lemma game_over_event_ok:
  "session_ok g \<Longrightarrow> game_over_event env e g = Inr g' \<Longrightarrow> session_ok g'"
  by (auto simp: game_over_event_def Let_def session_ok_reset session_ok_state
        dest!: play_music_Inr split: Event.splits if_splits)

lemma session_ok_resume:
  assumes "session_ok g" "player g = Some p" "1 \<le> health p"
  shows "session_ok (g\<lparr>game_state := STATE_PLAYING\<rparr>)"
proof -
  have o: "obstacle_ok (g\<lparr>game_state := STATE_PLAYING\<rparr>) = obstacle_ok g"
    by (rule obstacle_ok_cong) simp_all
  show ?thesis using assms by (auto simp: session_ok_def o)
qed

lemma pause_event_ok:
  assumes "session_ok g \<and> (\<exists>p. player g = Some p \<and> 1 \<le> health p)"
    "pause_event env e g = Inr g'"
  shows "session_ok g' \<and> (\<exists>p. player g' = Some p \<and> 1 \<le> health p)"
proof -
  from assms(1) obtain p where p: "session_ok g" "player g = Some p" "1 \<le> health p" by blast
  have pl: "player g' = player g"
    using assms(2) by (auto simp: pause_event_def Let_def split: Event.splits if_splits)
  have "session_ok g'"
    using assms(2) session_ok_resume [OF p] p(1)
    by (auto simp: pause_event_def Let_def session_ok_state session_ok_misc
          split: Event.splits if_splits)
  with pl p show ?thesis by simp
qed

subsection \<open>The session invariant over the main loop\<close>

lemma session_ok_initial: "session_ok initial_game"
  by (simp add: session_ok_def initial_game_def MAX_SPEED_def)

lemma main_step_eq:
  "main_step env fr g =
     (case game_state g of
        STATE_MAIN_MENU \<Rightarrow> handle_main_menu env (frame_events fr)
          (if QUIT \<in> set (frame_events fr) then g\<lparr>quit_game := True\<rparr> else g)
      | STATE_INSTRUCTIONS \<Rightarrow> handle_instructions (frame_events fr)
          (if QUIT \<in> set (frame_events fr) then g\<lparr>quit_game := True\<rparr> else g)
      | STATE_SETTINGS \<Rightarrow> handle_settings env (frame_events fr)
          (if QUIT \<in> set (frame_events fr) then g\<lparr>quit_game := True\<rparr> else g)
      | STATE_PLAYING \<Rightarrow> handle_playing env (frame_events fr) (real (ticks fr) / 1000)
          (if QUIT \<in> set (frame_events fr) then g\<lparr>quit_game := True\<rparr> else g)
      | STATE_PAUSED \<Rightarrow> handle_pause env (frame_events fr)
          (if QUIT \<in> set (frame_events fr) then g\<lparr>quit_game := True\<rparr> else g)
      | STATE_GAME_OVER \<Rightarrow> handle_game_over env (frame_events fr)
          (if QUIT \<in> set (frame_events fr) then g\<lparr>quit_game := True\<rparr> else g))"
  by (cases "QUIT \<in> set (frame_events fr)") (simp_all add: main_step_def Let_def)

lemma main_step_ok:
  assumes ok: "session_ok g" and st: "main_step env fr g = Inr g'"
  shows "session_ok g'"
proof -
  define g0 where "g0 = (if QUIT \<in> set (frame_events fr) then g\<lparr>quit_game := True\<rparr> else g)"
  have ok0: "session_ok g0" unfolding g0_def using ok by (simp add: session_ok_misc)
  have gs0: "game_state g0 = game_state g" "player g0 = player g" unfolding g0_def by auto
  show ?thesis
  proof (cases "game_state g")
    case STATE_MAIN_MENU
    with st have "for_events (main_menu_event env) (frame_events fr) g0 = Inr g'"
      by (simp add: main_step_eq g0_def handle_main_menu_def)
    from for_events_invariant [of session_ok, OF main_menu_event_ok ok0 this] show ?thesis .
  next
    case STATE_PLAYING
    with st have h: "handle_playing env (frame_events fr) (real (ticks fr) / 1000) g0 = Inr g'"
      by (simp add: main_step_eq g0_def)
    from session_ok_playing [OF ok0, of env "frame_events fr" "real (ticks fr) / 1000"]
      STATE_PLAYING gs0 h show ?thesis by auto
  next
    case STATE_PAUSED
    with st have h: "for_events (pause_event env) (frame_events fr) g0 = Inr g'"
      by (simp add: main_step_eq g0_def handle_pause_def)
    from session_ok_player [OF ok0] STATE_PAUSED gs0 obtain p where p: "player g0 = Some p"
      by auto
    from session_okD [OF ok0 p] STATE_PAUSED gs0 have "1 \<le> health p" by simp
    with ok0 p have i: "session_ok g0 \<and> (\<exists>p. player g0 = Some p \<and> 1 \<le> health p)" by simp
    from for_events_invariant
      [of "\<lambda>g. session_ok g \<and> (\<exists>p. player g = Some p \<and> 1 \<le> health p)",
        OF pause_event_ok i h]
    show ?thesis by simp
  next
    case STATE_INSTRUCTIONS
    with st have "for_events instructions_event (frame_events fr) g0 = Inr g'"
      by (simp add: main_step_eq g0_def handle_instructions_def)
    from for_events_invariant [of session_ok, OF instructions_event_ok ok0 this] show ?thesis .
  next
    case STATE_SETTINGS
    with st have "for_events (settings_event env) (frame_events fr) g0 = Inr g'"
      by (simp add: main_step_eq g0_def handle_settings_def)
    from for_events_invariant [of session_ok, OF settings_event_ok ok0 this] show ?thesis .
  next
    case STATE_GAME_OVER
    with st have "for_events (game_over_event env) (frame_events fr) g0 = Inr g'"
      by (simp add: main_step_eq g0_def handle_game_over_def)
    from for_events_invariant [of session_ok, OF game_over_event_ok ok0 this] show ?thesis .
  qed
qed

lemma main_loop_ok:
  "session_ok g \<Longrightarrow> main_loop env frs g = Inr g' \<Longrightarrow> session_ok g'"
proof (induction frs arbitrary: g)
  case Nil
  then show ?case by simp
next
  case (Cons fr frs)
  show ?case
  proof (cases "quit_game g")
    case True
    with Cons.prems show ?thesis by simp
  next
    case False
    with Cons.prems(2) obtain g1 where g1: "main_step env fr g = Inr g1"
      "main_loop env frs g1 = Inr g'" by (auto split: sum.splits)
    from Cons.IH [OF main_step_ok [OF Cons.prems(1) g1(1)] g1(2)] show ?thesis .
  qed
qed

subsection \<open>The example session\<close>

lemma example_game_fields:
  "obstacle example_game = Some 0" "obstacles_group example_game = Some [0]"
  "objects example_game = [Obstacle_init (obstacle_files example_env) 0 STARTING_SPEED]"
  "score example_game = 0" "speed example_game = STARTING_SPEED"
  "game_state example_game = STATE_PLAYING"
  "player example_game = Some (example_player\<lparr>invincibility_frame := 0\<rparr>)"
  by (simp_all add: example_game_def reset_game_session initial_game_def example_env_def
        example_player_def)

lemma example_game_playing:
  "handle_playing env events dt example_game =
     Inr (draw_hud env (collision_detection env (before_collision env events dt example_game)))"
  by (simp add: handle_playing_def before_collision_def after_updates_def example_game_fields)

lemma example_obstacle:
  "ob_x (Obstacle_init (obstacle_files example_env) 0 sp) = 800"
  "rect_w (ob_rect (Obstacle_init (obstacle_files example_env) 0 sp)) = 2"
  by (simp_all add: Obstacle_init_def Let_def example_env_def random_choice_def get_rect_def
        example_sprite_def constants)

lemma example_game_passed: "passed (after_updates env events 2 example_game)"
  by (simp add: passed_def after_updates_def example_game_fields
        playing_updates_objects [of _ 0] Obstacle_update_def Let_def rect_right_def
        example_obstacle constants py_int_def)


lemma example_start:
  "main_loop example_env [example_start_frame] initial_game = Inr example_game"
proof -
  have q: "\<not> quit_game initial_game" "game_state initial_game = STATE_MAIN_MENU"
    by (simp_all add: initial_game_def)
  have c: "collidepoint (mm_start draw_main_menu) (400, 200)"
    by (simp add: draw_main_menu_def Rect_new_def py_int_def collidepoint_def constants)
  have m: "play_music example_env example_game = Inr example_game"
    by (simp add: play_music_def example_env_def example_game_def reset_game_session
          initial_game_def)
  show ?thesis
    using c m
    by (simp add: q main_step_eq example_start_frame_def handle_main_menu_def
          main_menu_event_def example_game_def)
qed

subsection \<open>The example collision\<close>

lemma example_player_sprites:
  "running_sprites example_player \<noteq> []" "jumping_sprites example_player \<noteq> []"
  "pl_y example_player = 282" "vel_y example_player = 0"
  by (simp_all add: example_player_def Player_init_def Let_def load_animation_frames_def constants)

lemma example_session_fields:
  "obstacle (example_session hp t) = Some 0" "obstacles_group (example_session hp t) = Some [0]"
  "objects (example_session hp t) = [Obstacle_init (obstacle_files example_env) 0 STARTING_SPEED]"
  "score (example_session hp t) = 0" "speed (example_session hp t) = STARTING_SPEED"
  "game_state (example_session hp t) = STATE_PLAYING"
  "player (example_session hp t) = Some (example_player\<lparr>health := hp, invincibility_frame := t\<rparr>)"
  by (simp_all add: example_session_def example_game_fields)

lemma example_session_playing:
  "handle_playing env events dt (example_session hp t) =
     Inr (draw_hud env (collision_detection env (before_collision env events dt (example_session hp t))))"
  by (simp add: handle_playing_def before_collision_def after_updates_def example_session_fields)

lemma example_hit_obstacle:
  "objects (after_updates env [] example_hit_dt (example_session hp t)) =
     [(Obstacle_init (obstacle_files example_env) 0 STARTING_SPEED)
        \<lparr>ob_x := 26, ob_rect := \<lparr>rect_x = 26, rect_y = 430, rect_w = 2, rect_h = 2\<rparr>\<rparr>]"
  by (simp add: after_updates_def playing_input_def example_session_fields
        playing_updates_objects [of _ 0] Obstacle_update_def Let_def Obstacle_init_def
        example_env_def random_choice_def get_rect_def example_sprite_def constants py_int_def
        example_hit_dt_def)

lemma example_hit_player:
  "pl_rect (Player_update dt (example_player\<lparr>health := hp, invincibility_frame := t\<rparr>)) =
     \<lparr>rect_x = 25, rect_y = 282, rect_w = 2, rect_h = 150\<rparr>"
  "pl_mask (Player_update dt (example_player\<lparr>health := hp, invincibility_frame := t\<rparr>)) =
     \<lparr>mask_w = 2, mask_h = 150, mask_bits = [(0, 149), (1, 149)]\<rparr>"
  by (simp_all add: Player_update_def Player_timer_def Player_image_def Player_animation_def
        Player_physics_def example_player_def Player_init_def load_animation_frames_def Let_def
        get_rect_def from_surface_def example_runner_def constants py_int_def py_fmod_def)


lemma example_hit_collides:
  "collide_mask (Player_update dt (example_player\<lparr>health := hp, invincibility_frame := t\<rparr>))
     ((Obstacle_init (obstacle_files example_env) 0 STARTING_SPEED)
        \<lparr>ob_x := 26, ob_rect := \<lparr>rect_x = 26, rect_y = 430, rect_w = 2, rect_h = 2\<rparr>\<rparr>)"
  by (simp add: collide_mask_def example_hit_player overlap_def get_at_def Obstacle_init_def
        Let_def example_env_def random_choice_def from_surface_def example_sprite_def)

lemma example_hit_before:
  "before_collision env [] example_hit_dt (example_session hp t) =
     after_updates env [] example_hit_dt (example_session hp t)"
  unfolding before_collision_def
  by (rule obstacle_management_not_passed)
     (simp add: passed_def example_hit_obstacle example_session_fields rect_right_def)

lemma example_hit_fields:
  "player (after_updates env [] example_hit_dt (example_session hp t)) =
     Some (Player_update example_hit_dt (example_player\<lparr>health := hp, invincibility_frame := t\<rparr>))"
  "obstacles_group (after_updates env [] example_hit_dt (example_session hp t)) = Some [0]"
  "game_state (after_updates env [] example_hit_dt (example_session hp t)) = STATE_PLAYING"
  by (simp_all add: after_updates_def playing_input_def example_session_fields)

lemma example_player_timer:
  "invincibility_frame (Player_update dt (example_player\<lparr>health := hp, invincibility_frame := t\<rparr>))
     = (if 0 < t then t - 1 else t)"
  "health (Player_update dt (example_player\<lparr>health := hp, invincibility_frame := t\<rparr>)) = hp"
  by (simp_all add: Player_update_timer example_player_sprites)

subsection \<open>Health over a frame, and the game-over screen\<close>

lemma collision_detection_health:
  assumes "player g = Some p"
  shows "\<exists>p'. player (collision_detection env g) = Some p' \<and>
           (health p' = health p \<or>
            health p' = health p - 1 \<and>
            (health p' \<le> 0 \<longrightarrow> game_state (collision_detection env g) = STATE_GAME_OVER))"
  using assms
  by (auto simp: collision_detection_def new_Obstacle_def Let_def split: list.splits)

lemma handle_playing_health:
  assumes "handle_playing env events dt g = Inr g'" "player g = Some p"
  shows "\<exists>p'. player g' = Some p' \<and>
           (health p' = health p \<or>
            health p' = health p - 1 \<and> (health p' \<le> 0 \<longrightarrow> game_state g' = STATE_GAME_OVER))"
proof -
  from playing_input_player [OF assms(2), of events] obtain p1 where
    p1: "player (playing_input events g) = Some p1" "health p1 = health p" by blast
  have pb: "player (before_collision env events dt g) = Some (Player_update dt p1)"
    by (simp add: before_collision_def after_updates_def p1)
  from collision_detection_health [OF pb, of env] obtain p' where
    p': "player (collision_detection env (before_collision env events dt g)) = Some p'"
      "health p' = health p \<or>
       health p' = health p - 1 \<and>
       (health p' \<le> 0 \<longrightarrow>
          game_state (collision_detection env (before_collision env events dt g)) = STATE_GAME_OVER)"
    by (auto simp: p1)
  from handle_playing_Inr [OF assms(1)] p' show ?thesis by simp
qed

lemma for_events_skip:
  "(\<And>e. e \<in> set es \<Longrightarrow> body e g = Inr g) \<Longrightarrow> for_events body es g = Inr g"
  by (induction es) simp_all

lemma game_over_event_skip:
  "\<not> leaves_game_over env e \<Longrightarrow> game_over_event env e g = Inr g"
  by (auto simp: game_over_event_def leaves_game_over_def Let_def split: Event.splits)

lemma game_over_frame_skip:
  assumes "game_state g = STATE_GAME_OVER" "\<forall>e \<in> set (frame_events fr). \<not> leaves_game_over env e"
  shows "main_step env fr g =
           Inr (if QUIT \<in> set (frame_events fr) then g\<lparr>quit_game := True\<rparr> else g)"
proof -
  define g0 where "g0 = (if QUIT \<in> set (frame_events fr) then g\<lparr>quit_game := True\<rparr> else g)"
  have s: "game_state g0 = STATE_GAME_OVER" unfolding g0_def using assms(1) by simp
  have "for_events (game_over_event env) (frame_events fr) g0 = Inr g0"
    by (rule for_events_skip) (simp add: game_over_event_skip assms(2))
  then show ?thesis
    using assms(1) by (simp add: main_step_eq g0_def [symmetric] handle_game_over_def)
qed

subsection \<open>The invincibility window\<close>

lemma collision_detection_skip:
  "player h = Some q \<Longrightarrow> 0 < invincibility_frame q \<Longrightarrow> collision_detection env h = h"
  by (simp add: collision_detection_def)

lemma collision_detection_clear:
  "player h = Some q \<Longrightarrow> collided_obstacles h = [] \<Longrightarrow> collision_detection env h = h"
  by (simp add: collision_detection_def)

lemma collision_detection_damage:
  assumes "player h = Some q" "invincibility_frame q \<le> 0" "collided_obstacles h \<noteq> []"
  shows "player (collision_detection env h) =
           Some (q\<lparr>health := health q - 1, invincibility_frame := PLAYER_INVINCIBILITY_DURATION\<rparr>)"
  using assms
  by (cases "collided_obstacles h")
     (simp_all add: collision_detection_def new_Obstacle_def Let_def)

lemma handle_playing_player:
  assumes "handle_playing env events dt g = Inr g'" "player g = Some p"
  shows "\<exists>p1. player (before_collision env events dt g) = Some (Player_update dt p1) \<and>
           health p1 = health p \<and> invincibility_frame p1 = invincibility_frame p \<and>
           g' = draw_hud env (collision_detection env (before_collision env events dt g))"
proof -
  from playing_input_player [OF assms(2), of events] obtain p1 where
    p1: "player (playing_input events g) = Some p1" "health p1 = health p"
      "invincibility_frame p1 = invincibility_frame p" by blast
  have "player (before_collision env events dt g) = Some (Player_update dt p1)"
    by (simp add: before_collision_def after_updates_def p1)
  with p1 handle_playing_Inr [OF assms(1)] show ?thesis by blast
qed

lemma handle_playing_damage:
  assumes "handle_playing env events dt g = Inr g'" "player g = Some p" "player g' = Some p'"
    "health p' \<noteq> health p"
  shows "health p' = health p - 1 \<and> invincibility_frame p' = PLAYER_INVINCIBILITY_DURATION \<and>
         invincibility_frame p \<le> 1"
proof -
  from handle_playing_player [OF assms(1,2)] obtain p1 where
    p1: "player (before_collision env events dt g) = Some (Player_update dt p1)"
      "health p1 = health p" "invincibility_frame p1 = invincibility_frame p"
      "g' = draw_hud env (collision_detection env (before_collision env events dt g))" by blast
  define b where "b = before_collision env events dt g"
  define q where "q = Player_update dt p1"
  have bq: "player b = Some q" unfolding b_def q_def by (rule p1(1))
  have g': "player (collision_detection env b) = Some p'"
    using assms(3) p1(4) unfolding b_def by simp
  have hq: "health q = health p" unfolding q_def by (simp add: p1(2))
  have t: "\<not> 0 < invincibility_frame q"
  proof
    assume "0 < invincibility_frame q"
    from collision_detection_skip [OF bq this, of env] g' bq have "p' = q" by simp
    with hq assms(4) show False by simp
  qed
  have c: "collided_obstacles b \<noteq> []"
  proof
    assume "collided_obstacles b = []"
    from collision_detection_clear [OF bq this, of env] g' bq have "p' = q" by simp
    with hq assms(4) show False by simp
  qed
  from t have t': "invincibility_frame q \<le> 0" by simp
  from collision_detection_damage [OF bq t' c, of env] g'
  have p': "p' = q\<lparr>health := health q - 1, invincibility_frame := PLAYER_INVINCIBILITY_DURATION\<rparr>"
    by simp
  from t' have "invincibility_frame p \<le> 1"
    unfolding q_def by (simp add: Player_update_timer p1(3) split: if_splits)
  with p' hq show ?thesis by simp
qed

lemma handle_playing_immune:
  assumes "handle_playing env events dt g = Inr g'" "player g = Some p"
    "2 \<le> invincibility_frame p"
  shows "\<exists>p'. player g' = Some p' \<and> health p' = health p \<and>
           invincibility_frame p - 1 \<le> invincibility_frame p'"
proof -
  from handle_playing_player [OF assms(1,2)] obtain p1 where
    p1: "player (before_collision env events dt g) = Some (Player_update dt p1)"
      "health p1 = health p" "invincibility_frame p1 = invincibility_frame p"
      "g' = draw_hud env (collision_detection env (before_collision env events dt g))" by blast
  have t: "0 < invincibility_frame (Player_update dt p1)"
    "invincibility_frame p - 1 \<le> invincibility_frame (Player_update dt p1)"
    using assms(3) by (simp_all add: Player_update_timer p1(3))
  from collision_detection_skip [OF p1(1) t(1), of env] p1 t(2) show ?thesis by simp
qed

lemma playing_frames_immune:
  "playing_frames env fs g = Inr g' \<Longrightarrow> player g = Some p \<Longrightarrow>
   int (length fs) < invincibility_frame p \<Longrightarrow>
   \<exists>p'. player g' = Some p' \<and> health p' = health p"
proof (induction fs arbitrary: g p)
  case Nil
  then show ?case by simp
next
  case (Cons f fs)
  from Cons.prems(1) obtain g1 where g1: "handle_playing env (fst f) (snd f) g = Inr g1"
    "playing_frames env fs g1 = Inr g'" by (auto split: sum.splits)
  from Cons.prems(3) have "2 \<le> invincibility_frame p" by simp
  from handle_playing_immune [OF g1(1) Cons.prems(2) this] obtain p1 where
    p1: "player g1 = Some p1" "health p1 = health p"
      "invincibility_frame p - 1 \<le> invincibility_frame p1" by blast
  from Cons.prems(3) p1(3) have "int (length fs) < invincibility_frame p1" by simp
  from Cons.IH [OF g1(2) p1(1) this] p1(2) show ?case by simp
qed

subsection \<open>A player that fits on the screen\<close>

lemma overlap_beyond:
  "mask_w m \<le> fst offset \<Longrightarrow> overlap m other offset = None"
  by (auto simp: overlap_def find_None_iff get_at_def)

lemma player_fits_init: "sprites_fit env \<Longrightarrow> player_fits (Player_init (player_files env))"
proof (cases "player_files env")
  case None
  then show ?thesis
    by (simp add: player_fits_def Player_init_def Let_def filled_surface_def constants)
next
  case (Some f)
  obtain run jump where f: "f = (run, jump)" by (cases f)
  assume "sprites_fit env"
  with Some f have w: "\<And>i. i < 8 \<Longrightarrow> surf_width (run i) < GAME_WIDTH - PLAYER_START_X"
    "\<And>i. i < 8 \<Longrightarrow> surf_width (jump i) < GAME_WIDTH - PLAYER_START_X"
    by (simp_all add: sprites_fit_def)
  have s: "running_sprites (Player_init (player_files env)) = map run [0..<8]"
    "jumping_sprites (Player_init (player_files env)) = map jump [0..<8]"
    "pl_x (Player_init (player_files env)) = PLAYER_START_X"
    by (simp_all add: Player_init_def Let_def load_animation_frames_def Some f
          del: upt_rec_numeral)
  show ?thesis
    unfolding player_fits_def s using w by (auto simp del: upt_rec_numeral)
qed

lemma player_fits_cong:
  "pl_x p' = pl_x p \<Longrightarrow> running_sprites p' = running_sprites p \<Longrightarrow>
   jumping_sprites p' = jumping_sprites p \<Longrightarrow> player_fits p' = player_fits p"
  by (simp add: player_fits_def)

lemma Player_animation_sprites [simp]:
  "running_sprites (Player_animation p) = running_sprites p"
  "jumping_sprites (Player_animation p) = jumping_sprites p"
  by (cases "action p"; simp add: Player_animation_def Let_def)+

lemma Player_image_sprites [simp]:
  "running_sprites (Player_image p) = running_sprites p"
  "jumping_sprites (Player_image p) = jumping_sprites p"
  by (simp_all add: Player_image_def Let_def)

lemma Player_timer_sprites [simp]:
  "running_sprites (Player_timer p) = running_sprites p"
  "jumping_sprites (Player_timer p) = jumping_sprites p"
  by (simp_all add: Player_timer_def)

lemma Player_update_sprites [simp]:
  "running_sprites (Player_update dt p) = running_sprites p"
  "jumping_sprites (Player_update dt p) = jumping_sprites p"
  "pl_x (Player_update dt p) = pl_x p"
  by (simp_all add: Player_update_def)

lemma player_fits_update [simp]: "player_fits (Player_update dt p) = player_fits p"
  by (rule player_fits_cong) simp_all

lemma player_fits_jump [simp]: "player_fits (Player_jump p) = player_fits p"
  by (rule player_fits_cong) simp_all

lemma player_fits_hit [simp]:
  "player_fits (p\<lparr>health := hp, invincibility_frame := t\<rparr>) = player_fits p"
  "player_fits (p\<lparr>invincibility_frame := t\<rparr>) = player_fits p"
  by (simp_all add: player_fits_def)

lemma Player_update_drawn:
  assumes "player_fits p"
  shows "rect_x (pl_rect (Player_update dt p)) = PLAYER_START_X"
    "mask_w (pl_mask (Player_update dt p)) < GAME_WIDTH - PLAYER_START_X"
proof -
  from assms have f: "pl_x p = PLAYER_START_X" "running_sprites p \<noteq> []" "jumping_sprites p \<noteq> []"
    and w: "\<And>img. img \<in> set (running_sprites p) \<or> img \<in> set (jumping_sprites p) \<Longrightarrow>
              surf_width img < GAME_WIDTH - PLAYER_START_X"
    by (auto simp: player_fits_def)
  define a where "a = Player_animation (Player_physics p)"
  have l: "current_sprite_list a = running_sprites p \<or> current_sprite_list a = jumping_sprites p"
    unfolding a_def
    by (simp add: Player_animation_def Player_physics_def Let_def split: Action.splits)
  have x: "pl_x a = pl_x p" unfolding a_def by simp
  have ne: "current_sprite_list a \<noteq> []" using l f by auto
  define i where "i = nat (max 0 (min (py_int (current_sprite_index a))
      (int (length (current_sprite_list a)) - 1)))"
  have "i < length (current_sprite_list a)" unfolding i_def using ne by (cases "current_sprite_list a") auto
  then have "current_sprite_list a ! i \<in> set (current_sprite_list a)" by simp
  with l w have ww: "surf_width (current_sprite_list a ! i) < GAME_WIDTH - PLAYER_START_X" by auto
  have u: "Player_update dt p = Player_timer (Player_image a)"
    unfolding a_def using f by (simp add: Player_update_def)
  show "rect_x (pl_rect (Player_update dt p)) = PLAYER_START_X"
    by (simp add: u Player_image_def Let_def x f)
  show "mask_w (pl_mask (Player_update dt p)) < GAME_WIDTH - PLAYER_START_X"
    using ww by (simp add: u Player_image_def Let_def from_surface_def i_def)
qed

lemma fresh_obstacle_clear:
  assumes "player_fits p"
  shows "\<not> collide_mask (Player_update dt p) (Obstacle_init loaded r sp)"
  using Player_update_drawn [OF assms, of dt]
  by (simp add: collide_mask_def overlap_beyond)

subsection \<open>A frame that scores does not hurt\<close>

lemma playing_event_fits:
  "player g = Some p \<Longrightarrow> \<exists>p'. player (playing_event e g) = Some p' \<and> health p' = health p
      \<and> player_fits p' = player_fits p"
  by (cases e) (auto simp: playing_event_def Let_def)

lemma playing_input_fits:
  "player g = Some p \<Longrightarrow> \<exists>p'. player (playing_input events g) = Some p' \<and> health p' = health p
      \<and> player_fits p' = player_fits p"
  unfolding playing_input_def
proof (induction events arbitrary: g p)
  case Nil
  then show ?case by simp
next
  case (Cons e es)
  from playing_event_fits [OF Cons.prems, of e] obtain p1 where
    p1: "player (playing_event e g) = Some p1" "health p1 = health p"
      "player_fits p1 = player_fits p" by blast
  from Cons.IH [OF p1(1)] p1 show ?case by simp
qed

lemma before_collision_fits:
  assumes "player g = Some p"
  shows "\<exists>p1. player (before_collision env events dt g) = Some (Player_update dt p1) \<and>
           health p1 = health p \<and> player_fits p1 = player_fits p"
proof -
  from playing_input_fits [OF assms, of events] obtain p1 where
    p1: "player (playing_input events g) = Some p1" "health p1 = health p"
      "player_fits p1 = player_fits p" by blast
  have "player (before_collision env events dt g) = Some (Player_update dt p1)"
    by (simp add: before_collision_def after_updates_def p1)
  with p1 show ?thesis by blast
qed

lemma after_updates_single [simp]:
  "single_obstacle (after_updates env events dt g) = single_obstacle g"
  by (simp add: after_updates_def)

lemma handle_playing_passed_unhurt:
  assumes hp: "handle_playing env events dt g = Inr g'" and so: "single_obstacle g"
    and p: "player g = Some p" and fit: "player_fits p"
    and pa: "passed (after_updates env events dt g)"
  shows "\<exists>p'. player g' = Some p' \<and> health p' = health p"
proof -
  define a where "a = after_updates env events dt g"
  define b where "b = before_collision env events dt g"
  from so have "single_obstacle a" unfolding a_def by simp
  from single_obstacleD [OF this] obtain r where r: "obstacle a = Some r"
    "obstacles_group a = Some [r]" "r < length (objects a)" by blast
  have ba: "b = obstacle_management env a" unfolding a_def b_def before_collision_def ..
  from pa have pa': "passed a" unfolding a_def .
  note m = obstacle_management_passed [OF r(1,2) pa', of env]
  from before_collision_fits [OF p, of env events dt] fit obtain p1 where
    p1: "player b = Some (Player_update dt p1)" "health p1 = health p" "player_fits p1"
    unfolding b_def by blast
  have grp: "obstacles_group b = Some [length (objects a)]" unfolding ba by (rule m(2))
  have ob: "objects b ! length (objects a) =
      Obstacle_init (obstacle_files env) (random_raw env (random_calls a)) (speed b)"
    unfolding ba by (simp add: m(3))
  have "\<not> collide_mask (Player_update dt p1) (objects b ! length (objects a))"
    unfolding ob by (rule fresh_obstacle_clear [OF p1(3)])
  then have "collided_obstacles b = []" by (simp add: collided_single [OF p1(1) grp])
  from collision_detection_clear [OF p1(1) this, of env]
  have "collision_detection env b = b" .
  with handle_playing_Inr [OF hp] have "player g' = Some (Player_update dt p1)"
    unfolding b_def [symmetric] by (simp add: p1(1))
  with p1(2) show ?thesis by simp
qed

subsection \<open>The fitting player over the main loop\<close>

lemma session_fits_iff: "session_fits g = (\<forall>p. player g = Some p \<longrightarrow> player_fits p)"
  by (simp add: session_fits_def split: option.splits)

lemma session_fits_cong: "player g' = player g \<Longrightarrow> session_fits g' = session_fits g"
  by (simp add: session_fits_iff)

lemma session_fits_reset:
  "sprites_fit env \<Longrightarrow> session_fits ((reset_game env g)\<lparr>game_state := st\<rparr>)"
  by (simp add: session_fits_iff reset_game_session(1) player_fits_init)

lemma main_menu_event_fits:
  assumes "sprites_fit env" "session_fits g" "main_menu_event env e g = Inr g'"
  shows "session_fits g'"
proof -
  from assms(3) have "g' = (reset_game env g)\<lparr>game_state := STATE_PLAYING\<rparr> \<or> player g' = player g"
    by (auto simp: main_menu_event_def dest!: play_music_Inr split: Event.splits if_splits)
  then show ?thesis
    using session_fits_reset [OF assms(1)] session_fits_cong [of g' g] assms(2) by auto
qed

lemma game_over_event_fits:
  assumes "sprites_fit env" "session_fits g" "game_over_event env e g = Inr g'"
  shows "session_fits g'"
proof -
  from assms(3) have "g' = (reset_game env g)\<lparr>game_state := STATE_PLAYING\<rparr> \<or> player g' = player g"
    by (auto simp: game_over_event_def Let_def dest!: play_music_Inr split: Event.splits if_splits)
  then show ?thesis
    using session_fits_reset [OF assms(1)] session_fits_cong [of g' g] assms(2) by auto
qed

lemma instructions_event_fits:
  "session_fits g \<Longrightarrow> instructions_event e g = Inr g' \<Longrightarrow> session_fits g'"
  by (auto simp: instructions_event_def session_fits_iff split: Event.splits if_splits)

lemma settings_event_fits:
  assumes "session_fits g" "settings_event env e g = Inr g'"
  shows "session_fits g'"
proof -
  from assms(2) have "player g' = player g"
    by (auto simp: settings_event_def Let_def dest: switch_music_track_ok(2)
          split: Event.splits if_splits)
  with assms(1) show ?thesis by (simp add: session_fits_iff)
qed

lemma pause_event_fits:
  "session_fits g \<Longrightarrow> pause_event env e g = Inr g' \<Longrightarrow> session_fits g'"
  by (auto simp: pause_event_def Let_def session_fits_iff split: Event.splits if_splits)

lemma collision_detection_fits:
  assumes "player g = Some p"
  shows "\<exists>p'. player (collision_detection env g) = Some p' \<and> player_fits p' = player_fits p"
  using assms
  by (auto simp: collision_detection_def new_Obstacle_def Let_def player_fits_def
        split: list.splits)

lemma handle_playing_fits:
  assumes "session_fits g" "handle_playing env events dt g = Inr g'"
  shows "session_fits g'"
proof (cases "player g")
  case None
  with assms(2) show ?thesis by (simp add: handle_playing_def)
next
  case (Some p)
  with assms(1) have f: "player_fits p" by (simp add: session_fits_iff)
  from before_collision_fits [OF Some, of env events dt] f obtain p1 where
    p1: "player (before_collision env events dt g) = Some (Player_update dt p1)" "player_fits p1"
    by blast
  from collision_detection_fits [OF p1(1), of env] p1(2) obtain p' where
    "player (collision_detection env (before_collision env events dt g)) = Some p'"
    "player_fits p'" by auto
  with handle_playing_Inr [OF assms(2)] show ?thesis by (simp add: session_fits_iff)
qed

lemma main_step_fits:
  assumes sf: "sprites_fit env" and ok: "session_fits g" and st: "main_step env fr g = Inr g'"
  shows "session_fits g'"
proof -
  define g0 where "g0 = (if QUIT \<in> set (frame_events fr) then g\<lparr>quit_game := True\<rparr> else g)"
  have "player g0 = player g" unfolding g0_def by simp
  then have ok0: "session_fits g0" using ok by (simp add: session_fits_iff)
  show ?thesis
  proof (cases "game_state g")
    case STATE_MAIN_MENU
    with st have "for_events (main_menu_event env) (frame_events fr) g0 = Inr g'"
      by (simp add: main_step_eq g0_def handle_main_menu_def)
    from for_events_invariant [of session_fits, OF main_menu_event_fits [OF sf] ok0 this]
    show ?thesis .
  next
    case STATE_PLAYING
    with st have h: "handle_playing env (frame_events fr) (real (ticks fr) / 1000) g0 = Inr g'"
      by (simp add: main_step_eq g0_def)
    from handle_playing_fits [OF ok0 h] show ?thesis .
  next
    case STATE_PAUSED
    with st have h: "for_events (pause_event env) (frame_events fr) g0 = Inr g'"
      by (simp add: main_step_eq g0_def handle_pause_def)
    from for_events_invariant [of session_fits, OF pause_event_fits ok0 h] show ?thesis .
  next
    case STATE_INSTRUCTIONS
    with st have "for_events instructions_event (frame_events fr) g0 = Inr g'"
      by (simp add: main_step_eq g0_def handle_instructions_def)
    from for_events_invariant [of session_fits, OF instructions_event_fits ok0 this]
    show ?thesis .
  next
    case STATE_SETTINGS
    with st have "for_events (settings_event env) (frame_events fr) g0 = Inr g'"
      by (simp add: main_step_eq g0_def handle_settings_def)
    from for_events_invariant [of session_fits, OF settings_event_fits ok0 this] show ?thesis .
  next
    case STATE_GAME_OVER
    with st have "for_events (game_over_event env) (frame_events fr) g0 = Inr g'"
      by (simp add: main_step_eq g0_def handle_game_over_def)
    from for_events_invariant [of session_fits, OF game_over_event_fits [OF sf] ok0 this]
    show ?thesis .
  qed
qed

lemma main_loop_fits:
  "sprites_fit env \<Longrightarrow> session_fits g \<Longrightarrow> main_loop env frs g = Inr g' \<Longrightarrow> session_fits g'"
proof (induction frs arbitrary: g)
  case Nil
  then show ?case by simp
next
  case (Cons fr frs)
  show ?case
  proof (cases "quit_game g")
    case True
    with Cons.prems show ?thesis by simp
  next
    case False
    with Cons.prems(3) obtain g1 where g1: "main_step env fr g = Inr g1"
      "main_loop env frs g1 = Inr g'" by (auto split: sum.splits)
    from Cons.IH [OF Cons.prems(1) main_step_fits [OF Cons.prems(1,2) g1(1)] g1(2)]
    show ?thesis .
  qed
qed

lemma session_fits_initial: "session_fits initial_game"
  by (simp add: session_fits_def initial_game_def)

subsection \<open>The player\<close>

lemma example_player_action: "action example_player = Running"
  by (simp add: example_player_def Player_init_def Let_def)

text \<open>
  Claim C9. \<^verbatim>\<open>jump()\<close> called while the action is Jumping changes nothing (so vertical
  velocity and animation phase stay as they are); called while the action is Running it
  switches to Jumping, sets the vertical velocity to the jump velocity, which is negative
  (upward), and sets the jump animation phase to 0, leaving every other field alone.
\<close>

theorem jump_contract:
  "(action p = Jumping \<longrightarrow> Player_jump p = p) \<and>
   (action p = Running \<longrightarrow>
      Player_jump p = p\<lparr>action := Jumping, vel_y := PLAYER_JUMP_VELOCITY,
                         jumping_sprite_index := 0\<rparr> \<and>
      PLAYER_JUMP_VELOCITY < 0)"
  by (simp add: Player_jump_def PLAYER_JUMP_VELOCITY_def)

theorem jump_contract_witness:
  "action example_player = Running \<and>
   action (Player_jump example_player) = Jumping \<and>
   vel_y (Player_jump example_player) = - 4 \<and>
   jumping_sprite_index (Player_jump example_player) = 0 \<and>
   action (Player_jump (Player_jump example_player)) = Jumping \<and>
   Player_jump (Player_jump example_player) = Player_jump example_player"
proof -
  have r: "action example_player = Running" by (rule example_player_action)
  from jump_contract [of example_player] r
  have 1: "Player_jump example_player =
      example_player\<lparr>action := Jumping, vel_y := PLAYER_JUMP_VELOCITY, jumping_sprite_index := 0\<rparr>"
    by simp
  have j: "action (Player_jump example_player) = Jumping" by (simp add: 1)
  from jump_contract [of "Player_jump example_player"] j
  have 2: "Player_jump (Player_jump example_player) = Player_jump example_player" by simp
  show ?thesis using r 2 by (simp add: 1 PLAYER_JUMP_VELOCITY_def)
qed

text \<open>
  Claim C8. In every player state reached from the initial one through \<^verbatim>\<open>jump()\<close> and
  \<^verbatim>\<open>update()\<close> calls, a running player stands at ground level and a jumping player is at
  or above it (\<open>y\<close> grows downwards); and an update of a jumping player whose \<open>y\<close> reaches or
  passes ground level puts \<open>y\<close> at ground level, the action back to Running and the
  vertical velocity to 0.
\<close>

theorem player_ground_invariant:
  "(let p = Player_calls cs (Player_init files) in
      (action p = Running \<longrightarrow> pl_y p = of_int PLAYER_LAND_Y) \<and>
      (action p = Jumping \<longrightarrow> pl_y p \<le> of_int PLAYER_LAND_Y)) \<and>
   (action q = Jumping \<and> running_sprites q \<noteq> [] \<and> jumping_sprites q \<noteq> [] \<and>
    of_int PLAYER_LAND_Y \<le> pl_y q + vel_y q \<longrightarrow>
      pl_y (Player_update dt q) = of_int PLAYER_LAND_Y \<and>
      action (Player_update dt q) = Running \<and> vel_y (Player_update dt q) = 0)"
proof -
  have "ground_ok (Player_calls cs (Player_init files))"
    by (rule ground_ok_calls) (rule ground_ok_init)
  then show ?thesis
    using Player_update_lands [of q dt] by (simp add: ground_ok_def Let_def)
qed

theorem player_ground_invariant_witness:
  "action (Player_calls [Jump, Update (1 / 60)] example_player) = Jumping \<and>
   pl_y (Player_calls [Jump, Update (1 / 60)] example_player) \<le> 282 \<and>
   action (Player_update (1 / 60) ((Player_jump example_player)\<lparr>vel_y := 4\<rparr>)) = Running \<and>
   pl_y (Player_update (1 / 60) ((Player_jump example_player)\<lparr>vel_y := 4\<rparr>)) = 282 \<and>
   vel_y (Player_update (1 / 60) ((Player_jump example_player)\<lparr>vel_y := 4\<rparr>)) = 0"
proof -
  define q where "q = (Player_jump example_player)\<lparr>vel_y := 4\<rparr>"
  define p where "p = Player_calls [Jump, Update (1 / 60)] example_player"
  have a: "action q = Jumping" "running_sprites q \<noteq> []" "jumping_sprites q \<noteq> []"
    "of_int PLAYER_LAND_Y \<le> pl_y q + vel_y q"
    unfolding q_def
    by (simp_all add: Player_jump_def example_player_action example_player_sprites constants)
  have b: "action p = Jumping"
    unfolding p_def
    by (simp add: Player_calls_def Player_update_def Player_physics_def Player_jump_def
          example_player_action example_player_sprites constants Let_def)
  note t = player_ground_invariant
      [of "[Jump, Update (1 / 60)]" "Some (\<lambda>i. example_runner, \<lambda>i. example_runner)" q "1 / 60"]
  from t have "action p = Jumping \<longrightarrow> pl_y p \<le> of_int PLAYER_LAND_Y"
    unfolding Let_def example_player_def [symmetric] p_def [symmetric] by blast
  with b have 1: "pl_y p \<le> of_int PLAYER_LAND_Y" by blast
  from t a have 2: "pl_y (Player_update (1 / 60) q) = of_int PLAYER_LAND_Y \<and>
      action (Player_update (1 / 60) q) = Running \<and> vel_y (Player_update (1 / 60) q) = 0"
    by blast
  have c: "of_int PLAYER_LAND_Y = (282::real)" by (simp add: constants)
  show ?thesis using b 1 2 unfolding c q_def [symmetric] p_def [symmetric] by blast
qed

text \<open>
  Claim C4. In a frame of \<^verbatim>\<open>handle_playing\<close> the score grows by exactly 1 when the active
  obstacle has left the screen on the left (\<^verbatim>\<open>rect.right < 0\<close> after the updates) and stays
  as it is otherwise; the collision detection, damage included, adds nothing to it, and
  neither do the input, the updates or the drawing.
\<close>

theorem score_per_frame:
  "(handle_playing env events dt g = Inr g' \<longrightarrow>
      score g' = score g + (if passed (after_updates env events dt g) then 1 else 0)) \<and>
   score (collision_detection env h) = score h \<and>
   score (after_updates env events dt g) = score g \<and>
   score (draw_hud env h) = score h"
  using handle_playing_score [of env events dt g g'] by simp

theorem score_per_frame_witness:
  "(\<exists>g'. handle_playing example_env [] 2 example_game = Inr g' \<and> score g' = 1) \<and>
   (\<exists>g'. handle_playing example_env [] (1 / 60) example_game = Inr g' \<and> score g' = 0)"
proof -
  define a where
    "a = draw_hud example_env (collision_detection example_env
           (before_collision example_env [] 2 example_game))"
  define b where
    "b = draw_hud example_env (collision_detection example_env
           (before_collision example_env [] (1 / 60) example_game))"
  have ha: "handle_playing example_env [] 2 example_game = Inr a"
    unfolding a_def by (rule example_game_playing)
  have hb: "handle_playing example_env [] (1 / 60) example_game = Inr b"
    unfolding b_def by (rule example_game_playing)
  have pa: "passed (after_updates example_env [] 2 example_game)"
    by (rule example_game_passed)
  have pb: "\<not> passed (after_updates example_env [] (1 / 60) example_game)"
    by (simp add: passed_def after_updates_def example_game_fields
          playing_updates_objects [of _ 0] Obstacle_update_def Let_def rect_right_def
          example_obstacle constants py_int_def)
  from score_per_frame [of example_env "[]" 2 example_game a] ha pa
  have 1: "score a = 1" by (simp add: example_game_fields)
  from score_per_frame [of example_env "[]" "1 / 60" example_game b] hb pb
  have 2: "score b = 0" by (simp add: example_game_fields)
  from ha hb 1 2 show ?thesis by blast
qed

text \<open>
  Claim C2. A frame of \<^verbatim>\<open>handle_playing\<close> never lowers the global speed: the speed
  grows, by the fixed increment cut off at the cap, exactly when the obstacle has passed,
  the new score is a multiple of the interval and the speed is below the cap; a speed at
  or below the cap stays so, and no state of a run of the program has a speed above
  \<open>MAX_SPEED\<close>; \<^verbatim>\<open>reset_game()\<close> sets the speed to \<open>STARTING_SPEED\<close>.
\<close>

theorem speed_ratchet:
  "(handle_playing env events dt g = Inr g' \<longrightarrow>
      speed g' =
        (if passed (after_updates env events dt g) \<and>
            score g' mod SPEED_INCREASE_INTERVAL = 0 \<and> speed g < MAX_SPEED
         then min MAX_SPEED (speed g + SPEED_INCREASE_AMOUNT) else speed g) \<and>
      speed g \<le> speed g' \<and>
      (speed g < speed g' \<longleftrightarrow>
         passed (after_updates env events dt g) \<and>
         score g' mod SPEED_INCREASE_INTERVAL = 0 \<and> speed g < MAX_SPEED) \<and>
      (speed g \<le> MAX_SPEED \<longrightarrow> speed g' \<le> MAX_SPEED)) \<and>
   (main_loop env frames initial_game = Inr g'' \<longrightarrow> speed g'' \<le> MAX_SPEED) \<and>
   speed (reset_game env g) = STARTING_SPEED"
proof -
  have "speed g'' \<le> MAX_SPEED" if "main_loop env frames initial_game = Inr g''"
    using main_loop_ok [OF session_ok_initial that] by (simp add: session_ok_def)
  moreover have "speed g' =
        (if passed (after_updates env events dt g) \<and>
            score g' mod SPEED_INCREASE_INTERVAL = 0 \<and> speed g < MAX_SPEED
         then min MAX_SPEED (speed g + SPEED_INCREASE_AMOUNT) else speed g)"
    if "handle_playing env events dt g = Inr g'"
    using handle_playing_speed [OF that] handle_playing_score [OF that] by simp
  ultimately show ?thesis
    by (auto simp: SPEED_INCREASE_AMOUNT_def MAX_SPEED_def)
qed

theorem speed_ratchet_witness:
  "(\<exists>g'. handle_playing example_env [] 2 (example_game\<lparr>score := 3\<rparr>) = Inr g' \<and>
         score g' = 4 \<and> speed g' = 27 / 5) \<and>
   (\<exists>g'. main_loop example_env [example_start_frame] initial_game = Inr g' \<and> speed g' = 5)"
proof -
  define g where "g = example_game\<lparr>score := 3\<rparr>"
  define a where
    "a = draw_hud example_env (collision_detection example_env
           (before_collision example_env [] 2 g))"
  have ha: "handle_playing example_env [] 2 g = Inr a"
    unfolding a_def g_def
    by (simp add: handle_playing_def before_collision_def after_updates_def example_game_fields)
  have pa: "passed (after_updates example_env [] 2 g)"
    unfolding g_def
    by (simp add: passed_def after_updates_def example_game_fields
          playing_updates_objects [of _ 0] Obstacle_update_def Let_def rect_right_def
          example_obstacle constants py_int_def)
  have sa: "score a = 4"
    using handle_playing_score [OF ha] pa by (simp add: g_def)
  from speed_ratchet [of example_env "[]" 2 g a] ha pa sa
  have 1: "speed a = 27 / 5"
    by (simp add: g_def example_game_fields constants)
  from speed_ratchet [of example_env "[]" 2 g a "[example_start_frame]" example_game]
    example_start
  have "speed example_game \<le> MAX_SPEED" by blast
  then have 2: "speed example_game = 5" by (simp add: example_game_fields constants)
  from ha sa 1 2 example_start show ?thesis unfolding g_def by blast
qed

text \<open>Claim C1. In every state a run of the program reaches from its start, the
  health of the player lies between 0 and \<open>PLAYER_START_HEALTH\<close>; it is positive while
  the game is playing or paused and 0 on the game-over screen. A frame of
  \<^verbatim>\<open>handle_playing\<close> leaves the health as it is or takes one heart, and the frame that
  takes the last heart ends in \<open>STATE_GAME_OVER\<close>. On the game-over screen a frame
  without a click on Retry or Main Menu changes nothing but the quit flag: no update of
  the playing state runs.\<close>

theorem health_bounds_and_game_over:
  "(main_loop env frames initial_game = Inr g \<and> player g = Some p \<longrightarrow>
      0 \<le> health p \<and> health p \<le> PLAYER_START_HEALTH \<and>
      (game_state g \<in> {STATE_PLAYING, STATE_PAUSED} \<longrightarrow> 0 < health p) \<and>
      (game_state g = STATE_GAME_OVER \<longrightarrow> health p = 0)) \<and>
   (handle_playing env events dt h = Inr h' \<and> player h = Some q \<longrightarrow>
      (\<exists>q'. player h' = Some q' \<and>
         (health q' = health q \<or>
          health q' = health q - 1 \<and> (health q' \<le> 0 \<longrightarrow> game_state h' = STATE_GAME_OVER)))) \<and>
   (game_state k = STATE_GAME_OVER \<and> (\<forall>e \<in> set (frame_events fr). \<not> leaves_game_over env e) \<longrightarrow>
      main_step env fr k =
        Inr (if QUIT \<in> set (frame_events fr) then k\<lparr>quit_game := True\<rparr> else k))"
proof -
  have 1: "main_loop env frames initial_game = Inr g \<and> player g = Some p \<longrightarrow>
      0 \<le> health p \<and> health p \<le> PLAYER_START_HEALTH \<and>
      (game_state g \<in> {STATE_PLAYING, STATE_PAUSED} \<longrightarrow> 0 < health p) \<and>
      (game_state g = STATE_GAME_OVER \<longrightarrow> health p = 0)"
  proof
    assume a: "main_loop env frames initial_game = Inr g \<and> player g = Some p"
    then have ok: "session_ok g" using main_loop_ok [OF session_ok_initial] by blast
    from session_okD [OF ok] a show "0 \<le> health p \<and> health p \<le> PLAYER_START_HEALTH \<and>
        (game_state g \<in> {STATE_PLAYING, STATE_PAUSED} \<longrightarrow> 0 < health p) \<and>
        (game_state g = STATE_GAME_OVER \<longrightarrow> health p = 0)"
      by fastforce
  qed
  have 2: "handle_playing env events dt h = Inr h' \<and> player h = Some q \<longrightarrow>
      (\<exists>q'. player h' = Some q' \<and>
         (health q' = health q \<or>
          health q' = health q - 1 \<and> (health q' \<le> 0 \<longrightarrow> game_state h' = STATE_GAME_OVER)))"
    using handle_playing_health by blast
  have 3: "game_state k = STATE_GAME_OVER \<and> (\<forall>e \<in> set (frame_events fr). \<not> leaves_game_over env e) \<longrightarrow>
      main_step env fr k =
        Inr (if QUIT \<in> set (frame_events fr) then k\<lparr>quit_game := True\<rparr> else k)"
    using game_over_frame_skip by blast
  show ?thesis by (intro conjI) (rule 1, rule 2, rule 3)
qed


theorem health_bounds_and_game_over_witness:
  "(\<exists>p. main_loop example_env [example_start_frame] initial_game = Inr example_game \<and>
        player example_game = Some p \<and> 0 \<le> health p \<and> health p \<le> 3 \<and> 0 < health p) \<and>
   (\<exists>h' q'. handle_playing example_env [] example_hit_dt (example_session 1 0) = Inr h' \<and>
        player h' = Some q' \<and> health q' = 0 \<and> game_state h' = STATE_GAME_OVER \<and>
        main_step example_env \<lparr>ticks = 16, frame_events = [KEYDOWN K_SPACE]\<rparr> h' = Inr h')"
proof -
  define p where "p = example_player\<lparr>invincibility_frame := 0\<rparr>"
  define b where "b = after_updates example_env [] example_hit_dt (example_session 1 0)"
  define q where "q = Player_update example_hit_dt (example_player\<lparr>health := 1, invincibility_frame := 0\<rparr>)"
  define h' where "h' = draw_hud example_env (collision_detection example_env b)"
  define fr where "fr = \<lparr>ticks = 16, frame_events = [KEYDOWN K_SPACE]\<rparr>"
  have pp: "player example_game = Some p" unfolding p_def by (rule example_game_fields(7))
  have st: "game_state example_game = STATE_PLAYING" by (rule example_game_fields(6))
  note t1 = health_bounds_and_game_over [where env = example_env
      and frames = "[example_start_frame]" and g = example_game and p = p,
      THEN conjunct1]
  from t1 example_start pp st
  have a: "0 \<le> health p \<and> health p \<le> PLAYER_START_HEALTH \<and> 0 < health p" by blast
  then have a': "0 \<le> health p \<and> health p \<le> 3 \<and> 0 < health p"
    by (simp add: PLAYER_START_HEALTH_def)
  have hp: "handle_playing example_env [] example_hit_dt (example_session 1 0) = Inr h'"
    unfolding h'_def b_def example_hit_before [symmetric] by (rule example_session_playing)
  have bq: "player b = Some q" "obstacles_group b = Some [0]"
    unfolding b_def q_def by (rule example_hit_fields)+
  have qt: "invincibility_frame q \<le> 0" "health q = 1"
    unfolding q_def by (simp_all add: example_player_timer)
  have cm: "collide_mask q (objects b ! 0)"
    unfolding b_def q_def by (simp add: example_hit_obstacle example_hit_collides)
  have ph: "player h' =
      Some (q\<lparr>health := health q - 1, invincibility_frame := PLAYER_INVINCIBILITY_DURATION\<rparr>)"
    unfolding h'_def by (simp add: collision_detection_hit(1) [OF bq qt(1) cm])
  define q' where
    "q' = q\<lparr>health := health q - 1, invincibility_frame := PLAYER_INVINCIBILITY_DURATION\<rparr>"
  have hq: "health q' = 0" unfolding q'_def by (simp add: qt)
  have ps: "player (example_session 1 0) =
      Some (example_player\<lparr>health := 1, invincibility_frame := 0\<rparr>)"
    by (rule example_session_fields(7))
  note t2 = health_bounds_and_game_over [where env = example_env and events = "[]"
      and dt = example_hit_dt and h = "example_session 1 0" and h' = h'
      and q = "example_player\<lparr>health := 1, invincibility_frame := 0\<rparr>",
      THEN conjunct2, THEN conjunct1]
  from t2 hp ps obtain r where
    r: "player h' = Some r"
      "health r = health (example_player\<lparr>health := 1, invincibility_frame := 0\<rparr>) \<or>
       health r = health (example_player\<lparr>health := 1, invincibility_frame := 0\<rparr>) - 1 \<and>
       (health r \<le> 0 \<longrightarrow> game_state h' = STATE_GAME_OVER)"
    by blast
  from r(1) ph have "r = q'" unfolding q'_def by simp
  with r(2) hq have go: "game_state h' = STATE_GAME_OVER" by simp
  have nl: "\<forall>e \<in> set (frame_events fr). \<not> leaves_game_over example_env e"
    unfolding fr_def by (simp add: leaves_game_over_def)
  have nq: "QUIT \<notin> set (frame_events fr)" unfolding fr_def by simp
  note t3 = health_bounds_and_game_over [where env = example_env and k = h' and fr = fr,
      THEN conjunct2, THEN conjunct2]
  from t3 go nl have "main_step example_env fr h' =
      Inr (if QUIT \<in> set (frame_events fr) then h'\<lparr>quit_game := True\<rparr> else h')" by blast
  with nq have ms: "main_step example_env fr h' = Inr h'" by simp
  from example_start pp a' have A: "\<exists>p. main_loop example_env [example_start_frame] initial_game =
      Inr example_game \<and> player example_game = Some p \<and> 0 \<le> health p \<and> health p \<le> 3 \<and>
      0 < health p" by blast
  from hp ph hq go ms have B: "\<exists>h' q'. handle_playing example_env [] example_hit_dt
        (example_session 1 0) = Inr h' \<and>
        player h' = Some q' \<and> health q' = 0 \<and> game_state h' = STATE_GAME_OVER \<and>
        main_step example_env \<lparr>ticks = 16, frame_events = [KEYDOWN K_SPACE]\<rparr> h' = Inr h'"
    unfolding q'_def fr_def by blast
  from A B show ?thesis by (rule conjI)
qed

text \<open>Claim C3. The collision check reads the invincibility timer after
  \<^verbatim>\<open>Player.update\<close> has counted it down in the same frame. While that value is positive
  the check is skipped and the state is left as it is, whatever the masks do. When it
  is 0 (or less) and the player's mask overlaps an obstacle of the group, the health
  goes down by exactly 1 and the timer is set to \<open>PLAYER_INVINCIBILITY_DURATION = 60\<close>;
  without an overlap nothing changes. So a frame that changes the health takes exactly
  one heart, sets the timer to 60 and started with a timer of at most 1, and over any
  run of fewer frames than the timer shows at its start the health does not change.\<close>

theorem invincibility_window:
  "(player h = Some q \<and> 0 < invincibility_frame q \<longrightarrow> collision_detection env h = h) \<and>
   (player h = Some q \<and> invincibility_frame q \<le> 0 \<and> collided_obstacles h \<noteq> [] \<longrightarrow>
      player (collision_detection env h) =
        Some (q\<lparr>health := health q - 1, invincibility_frame := PLAYER_INVINCIBILITY_DURATION\<rparr>) \<and>
      PLAYER_INVINCIBILITY_DURATION = 60) \<and>
   (player h = Some q \<and> collided_obstacles h = [] \<longrightarrow> collision_detection env h = h) \<and>
   (handle_playing env events dt g = Inr g' \<and> player g = Some p \<and> player g' = Some p' \<and>
    health p' \<noteq> health p \<longrightarrow>
      health p' = health p - 1 \<and> invincibility_frame p' = PLAYER_INVINCIBILITY_DURATION \<and>
      invincibility_frame p \<le> 1) \<and>
   (playing_frames env fs g = Inr g'' \<and> player g = Some p \<and>
    int (length fs) < invincibility_frame p \<longrightarrow>
      (\<exists>p''. player g'' = Some p'' \<and> health p'' = health p))"
proof -
  have 1: "player h = Some q \<and> 0 < invincibility_frame q \<longrightarrow> collision_detection env h = h"
    using collision_detection_skip by blast
  have 2: "player h = Some q \<and> invincibility_frame q \<le> 0 \<and> collided_obstacles h \<noteq> [] \<longrightarrow>
      player (collision_detection env h) =
        Some (q\<lparr>health := health q - 1, invincibility_frame := PLAYER_INVINCIBILITY_DURATION\<rparr>) \<and>
      PLAYER_INVINCIBILITY_DURATION = 60"
    using collision_detection_damage [of h q env]
    by (simp add: PLAYER_INVINCIBILITY_DURATION_def)
  have 3: "player h = Some q \<and> collided_obstacles h = [] \<longrightarrow> collision_detection env h = h"
    using collision_detection_clear by blast
  have 4: "handle_playing env events dt g = Inr g' \<and> player g = Some p \<and> player g' = Some p' \<and>
    health p' \<noteq> health p \<longrightarrow>
      health p' = health p - 1 \<and> invincibility_frame p' = PLAYER_INVINCIBILITY_DURATION \<and>
      invincibility_frame p \<le> 1"
    using handle_playing_damage by blast
  have 5: "playing_frames env fs g = Inr g'' \<and> player g = Some p \<and>
    int (length fs) < invincibility_frame p \<longrightarrow>
      (\<exists>p''. player g'' = Some p'' \<and> health p'' = health p)"
    using playing_frames_immune by blast
  show ?thesis by (intro conjI) (rule 1, rule 2, rule 3, rule 4, rule 5)
qed

theorem invincibility_window_witness:
  "(\<exists>b q. before_collision example_env [] example_hit_dt (example_session 3 30) = b \<and>
        player b = Some q \<and> invincibility_frame q = 29 \<and> collide_mask q (objects b ! 0) \<and>
        collision_detection example_env b = b) \<and>
   (\<exists>b q. before_collision example_env [] example_hit_dt (example_session 3 0) = b \<and>
        player b = Some q \<and> invincibility_frame q = 0 \<and> collide_mask q (objects b ! 0) \<and>
        player (collision_detection example_env b) = Some (q\<lparr>health := 2, invincibility_frame := 60\<rparr>)) \<and>
   (\<exists>g' p'. playing_frames example_env [([], example_hit_dt)] (example_session 3 30) = Inr g' \<and>
        player g' = Some p' \<and> health p' = 3)"
proof -
  define b where "b = after_updates example_env [] example_hit_dt (example_session 3 30)"
  define q where
    "q = Player_update example_hit_dt (example_player\<lparr>health := 3, invincibility_frame := 30\<rparr>)"
  define c where "c = after_updates example_env [] example_hit_dt (example_session 3 0)"
  define r where
    "r = Player_update example_hit_dt (example_player\<lparr>health := 3, invincibility_frame := 0\<rparr>)"
  have bb: "before_collision example_env [] example_hit_dt (example_session 3 30) = b"
    unfolding b_def by (rule example_hit_before)
  have cc: "before_collision example_env [] example_hit_dt (example_session 3 0) = c"
    unfolding c_def by (rule example_hit_before)
  have bq: "player b = Some q" "obstacles_group b = Some [0]"
    unfolding b_def q_def by (rule example_hit_fields)+
  have cr: "player c = Some r" "obstacles_group c = Some [0]"
    unfolding c_def r_def by (rule example_hit_fields)+
  have qt: "invincibility_frame q = 29" "health q = 3"
    unfolding q_def by (simp_all add: example_player_timer)
  have rt: "invincibility_frame r = 0" "health r = 3"
    unfolding r_def by (simp_all add: example_player_timer)
  have qm: "collide_mask q (objects b ! 0)"
    unfolding b_def q_def by (simp add: example_hit_obstacle example_hit_collides)
  have rm: "collide_mask r (objects c ! 0)"
    unfolding c_def r_def by (simp add: example_hit_obstacle example_hit_collides)
  have co: "collided_obstacles c \<noteq> []"
    by (simp add: collided_single [OF cr] rm)
  note t = invincibility_window [where env = example_env]
  from t [where h = b and q = q, THEN conjunct1] bq(1) qt(1)
  have A: "collision_detection example_env b = b" by simp
  from t [where h = c and q = r, THEN conjunct2, THEN conjunct1] cr(1) rt(1) co
  have "player (collision_detection example_env c) =
      Some (r\<lparr>health := health r - 1, invincibility_frame := PLAYER_INVINCIBILITY_DURATION\<rparr>) \<and>
      PLAYER_INVINCIBILITY_DURATION = 60" by simp
  then have B: "player (collision_detection example_env c) =
      Some (r\<lparr>health := 2, invincibility_frame := 60\<rparr>)" by (simp add: rt)
  define g' where "g' = draw_hud example_env (collision_detection example_env
      (before_collision example_env [] example_hit_dt (example_session 3 30)))"
  have pf: "playing_frames example_env [([], example_hit_dt)] (example_session 3 30) = Inr g'"
    unfolding g'_def by (simp add: example_session_playing)
  have ps: "player (example_session 3 30) =
      Some (example_player\<lparr>health := 3, invincibility_frame := 30\<rparr>)"
    by (rule example_session_fields(7))
  from t [where fs = "[([], example_hit_dt)]" and g = "example_session 3 30" and g'' = g'
      and p = "example_player\<lparr>health := 3, invincibility_frame := 30\<rparr>",
      THEN conjunct2, THEN conjunct2, THEN conjunct2, THEN conjunct2] pf ps
  have "\<exists>p''. player g' = Some p'' \<and>
      health p'' = health (example_player\<lparr>health := 3, invincibility_frame := 30\<rparr>)" by simp
  then have C: "\<exists>p'. player g' = Some p' \<and> health p' = 3" by simp
  from bb bq(1) qt(1) qm A have A': "\<exists>b q.
        before_collision example_env [] example_hit_dt (example_session 3 30) = b \<and>
        player b = Some q \<and> invincibility_frame q = 29 \<and> collide_mask q (objects b ! 0) \<and>
        collision_detection example_env b = b" by blast
  from cc cr(1) rt(1) rm B have B': "\<exists>b q.
        before_collision example_env [] example_hit_dt (example_session 3 0) = b \<and>
        player b = Some q \<and> invincibility_frame q = 0 \<and> collide_mask q (objects b ! 0) \<and>
        player (collision_detection example_env b) = Some (q\<lparr>health := 2, invincibility_frame := 60\<rparr>)"
    by blast
  from pf C have C': "\<exists>g' p'. playing_frames example_env [([], example_hit_dt)]
        (example_session 3 30) = Inr g' \<and> player g' = Some p' \<and> health p' = 3" by blast
  show ?thesis by (intro conjI) (rule A', rule B', rule C')
qed

lemma example_fits:
  "sprites_fit example_env" "player_fits (example_player\<lparr>health := hp, invincibility_frame := t\<rparr>)"
  "single_obstacle (example_session hp t)"
proof -
  show s: "sprites_fit example_env"
    by (simp add: sprites_fit_def example_env_def example_runner_def constants)
  have "player_files example_env = Some (\<lambda>i. example_runner, \<lambda>i. example_runner)"
    by (simp add: example_env_def)
  with player_fits_init [OF s] have "player_fits example_player"
    by (simp add: example_player_def)
  then show "player_fits (example_player\<lparr>health := hp, invincibility_frame := t\<rparr>)"
    by (simp add: player_fits_def)
  show "single_obstacle (example_session hp t)"
    by (rule single_obstacleI [of _ 0]) (simp_all add: example_session_fields)
qed


text \<open>Claim C10. A player that fits (it stands at \<open>PLAYER_START_X\<close> and each of its
  sprites is narrower than \<open>GAME_WIDTH - PLAYER_START_X\<close>) does not touch an obstacle
  that has just been created: the obstacle starts at \<open>GAME_WIDTH\<close>, right of every
  pixel of the player's mask. So in a frame of \<^verbatim>\<open>handle_playing\<close> with one obstacle
  and a fitting player, the score and the health are never both changed: a frame that
  awards the point replaces the obstacle before the collision check, and a frame that
  takes a heart did not award the point. This holds in every playing state that a run
  of the program reaches when the sprite files of the machine fit.\<close>

theorem score_and_damage_exclusive:
  "(player_fits q \<longrightarrow>
      \<not> collide_mask (Player_update dt q) (Obstacle_init loaded r sp) \<and>
      ob_x (Obstacle_init loaded r sp) = of_int GAME_WIDTH) \<and>
   (handle_playing env events dt g = Inr g' \<and> single_obstacle g \<and> player g = Some p \<and>
    player_fits p \<and> player g' = Some p' \<longrightarrow>
      \<not> (score g' \<noteq> score g \<and> health p' \<noteq> health p)) \<and>
   (sprites_fit env \<and> main_loop env frames initial_game = Inr h \<and>
    game_state h = STATE_PLAYING \<and> handle_playing env events dt h = Inr h' \<longrightarrow>
      (\<exists>p p'. player h = Some p \<and> player h' = Some p' \<and>
         (score h' = score h \<or> health p' = health p)))"
proof -
  have 1: "player_fits q \<longrightarrow>
      \<not> collide_mask (Player_update dt q) (Obstacle_init loaded r sp) \<and>
      ob_x (Obstacle_init loaded r sp) = of_int GAME_WIDTH"
    using fresh_obstacle_clear [of q dt loaded r sp] by simp
  have e: "\<not> (score g' \<noteq> score g \<and> health p' \<noteq> health p)"
    if a: "handle_playing env events dt g = Inr g'" "single_obstacle g" "player g = Some p"
      "player_fits p" "player g' = Some p'" for g g' p p'
  proof
    assume b: "score g' \<noteq> score g \<and> health p' \<noteq> health p"
    with handle_playing_score [OF a(1)] have "passed (after_updates env events dt g)"
      by (simp split: if_splits)
    from handle_playing_passed_unhurt [OF a(1,2,3,4) this] a(5) b show False by simp
  qed
  have 2: "handle_playing env events dt g = Inr g' \<and> single_obstacle g \<and> player g = Some p \<and>
    player_fits p \<and> player g' = Some p' \<longrightarrow>
      \<not> (score g' \<noteq> score g \<and> health p' \<noteq> health p)"
    using e by blast
  have 3: "sprites_fit env \<and> main_loop env frames initial_game = Inr h \<and>
    game_state h = STATE_PLAYING \<and> handle_playing env events dt h = Inr h' \<longrightarrow>
      (\<exists>p p'. player h = Some p \<and> player h' = Some p' \<and>
         (score h' = score h \<or> health p' = health p))"
  proof
    assume a: "sprites_fit env \<and> main_loop env frames initial_game = Inr h \<and>
      game_state h = STATE_PLAYING \<and> handle_playing env events dt h = Inr h'"
    then have ok: "session_ok h" using main_loop_ok [OF session_ok_initial] by blast
    from a have fi: "session_fits h" using main_loop_fits [OF _ session_fits_initial] by blast
    from session_ok_player [OF ok] a obtain p where p: "player h = Some p" by auto
    from session_okD [OF ok p] have "obstacle_ok h" by simp
    then have so: "single_obstacle h" by (simp add: obstacle_ok_def)
    from fi p have pf: "player_fits p" by (simp add: session_fits_iff)
    from a have hp: "handle_playing env events dt h = Inr h'" by simp
    from handle_playing_health [OF hp p] obtain p' where p': "player h' = Some p'" by blast
    from e [OF hp so p pf p'] p p' show "\<exists>p p'. player h = Some p \<and> player h' = Some p' \<and>
         (score h' = score h \<or> health p' = health p)" by blast
  qed
  show ?thesis by (intro conjI) (rule 1, rule 2, rule 3)
qed

theorem score_and_damage_exclusive_witness:
  "(\<exists>g' p'. handle_playing example_env [] 2 example_game = Inr g' \<and> player g' = Some p' \<and>
        score example_game = 0 \<and> score g' = 1 \<and> health p' = 3) \<and>
   (\<exists>g' p'. handle_playing example_env [] example_hit_dt (example_session 3 0) = Inr g' \<and>
        player g' = Some p' \<and> score g' = 0 \<and> health p' = 2)"
proof -
  note t = score_and_damage_exclusive [where env = example_env and events = "[]"]
  define a where "a = draw_hud example_env (collision_detection example_env
      (before_collision example_env [] 2 example_game))"
  have ha: "handle_playing example_env [] 2 example_game = Inr a"
    unfolding a_def by (rule example_game_playing)
  have pa: "passed (after_updates example_env [] 2 example_game)" by (rule example_game_passed)
  from handle_playing_score [OF ha] pa have sa: "score a = 1"
    by (simp add: example_game_fields(4))
  from t [where dt = 2 and frames = "[example_start_frame]" and h = example_game and h' = a,
      THEN conjunct2, THEN conjunct2] example_fits(1) example_start example_game_fields(6) ha
  obtain p p' where pp: "player example_game = Some p" "player a = Some p'"
    "score a = score example_game \<or> health p' = health p" by blast
  from pp(1) have "p = example_player\<lparr>invincibility_frame := 0\<rparr>"
    by (simp add: example_game_fields(7))
  then have "health p = 3"
    by (simp add: example_player_def PLAYER_START_HEALTH_def)
  with pp(3) sa have "health p' = 3" by (simp add: example_game_fields(4))
  with ha pp(2) sa have A: "\<exists>g' p'. handle_playing example_env [] 2 example_game = Inr g' \<and>
      player g' = Some p' \<and> score example_game = 0 \<and> score g' = 1 \<and> health p' = 3"
    using example_game_fields(4) by blast
  define c where "c = after_updates example_env [] example_hit_dt (example_session 3 0)"
  define r where
    "r = Player_update example_hit_dt (example_player\<lparr>health := 3, invincibility_frame := 0\<rparr>)"
  define b where "b = draw_hud example_env (collision_detection example_env c)"
  have hb: "handle_playing example_env [] example_hit_dt (example_session 3 0) = Inr b"
    unfolding b_def c_def example_hit_before [symmetric] by (rule example_session_playing)
  have cr: "player c = Some r" "obstacles_group c = Some [0]"
    unfolding c_def r_def by (rule example_hit_fields)+
  have rt: "invincibility_frame r \<le> 0" "health r = 3"
    unfolding r_def by (simp_all add: example_player_timer)
  have rm: "collide_mask r (objects c ! 0)"
    unfolding c_def r_def by (simp add: example_hit_obstacle example_hit_collides)
  have pb: "player b =
      Some (r\<lparr>health := health r - 1, invincibility_frame := PLAYER_INVINCIBILITY_DURATION\<rparr>)"
    unfolding b_def by (simp add: collision_detection_hit(1) [OF cr rt(1) rm])
  define q' where
    "q' = r\<lparr>health := health r - 1, invincibility_frame := PLAYER_INVINCIBILITY_DURATION\<rparr>"
  have hq: "health q' = 2" unfolding q'_def by (simp add: rt)
  from t [where dt = example_hit_dt and g = "example_session 3 0" and g' = b
      and p = "example_player\<lparr>health := 3, invincibility_frame := 0\<rparr>" and p' = q',
      THEN conjunct2, THEN conjunct1]
    hb example_fits(3) [where hp = 3 and t = 0] example_session_fields(7) [where hp = 3 and t = 0] example_fits(2) [where hp = 3 and t = 0] pb
  have "\<not> (score b \<noteq> score (example_session 3 0) \<and>
      health q' \<noteq> health (example_player\<lparr>health := 3, invincibility_frame := 0\<rparr>))"
    unfolding q'_def by blast
  with hq have "score b = 0" by (simp add: example_session_fields(4))
  with hb pb hq have B: "\<exists>g' p'. handle_playing example_env [] example_hit_dt
      (example_session 3 0) = Inr g' \<and> player g' = Some p' \<and> score g' = 0 \<and> health p' = 2"
    unfolding q'_def by blast
  from A B show ?thesis by (rule conjI)
qed

lemma example_respawn:
  "obstacle (before_collision e [] 2 example_game) = Some 1"
  "objects (before_collision e [] 2 example_game) ! 1 =
     Obstacle_init (obstacle_files e)
       (random_raw e (random_calls (after_updates e [] 2 example_game)))
       (speed (before_collision e [] 2 example_game))"
proof -
  define a where "a = after_updates e [] 2 example_game"
  have r: "obstacle a = Some 0" "obstacles_group a = Some [0]"
    unfolding a_def by (simp_all add: example_game_fields)
  have pa: "passed a" unfolding a_def by (rule example_game_passed)
  have l: "length (objects a) = 1"
    unfolding a_def
    by (simp add: after_updates_def playing_input_def example_game_fields
          playing_updates_objects [of _ 0])
  note m = obstacle_management_passed [OF r pa, of e]
  show "obstacle (before_collision e [] 2 example_game) = Some 1"
    unfolding before_collision_def a_def [symmetric] using m(1) l by simp
  show "objects (before_collision e [] 2 example_game) ! 1 =
     Obstacle_init (obstacle_files e)
       (random_raw e (random_calls (after_updates e [] 2 example_game)))
       (speed (before_collision e [] 2 example_game))"
    unfolding before_collision_def a_def [symmetric] m(3)
    using nth_append_length [of "objects a" _ "[]"] l by simp
qed

text \<open>Claim C5. Every obstacle of the program comes from \<^verbatim>\<open>Obstacle(speed)\<close>: at the
  start of a game, after a pass-through and after a collision. The constructor takes a
  random variant and the speed it is given, and places the obstacle at \<open>GAME_WIDTH\<close>
  exactly, whatever the random generator produces. The code that adds
  \<^verbatim>\<open>random.randint(OBSTACLE_SPAWN_OFFSET_MIN, OBSTACLE_SPAWN_OFFSET_MAX)\<close> to
  \<open>GAME_WIDTH\<close> is \<^verbatim>\<open>Obstacle.reset\<close>, which nothing calls. In the example session a
  frame of two seconds lets the obstacle pass: its successor stands at 800 under two
  different random generators, and so does the successor after the example collision,
  where \<^verbatim>\<open>reset\<close> with the random number 137 would have placed it at 937.\<close>

theorem respawn_without_jitter:
  "ob_x (Obstacle_init loaded r sp) = of_int GAME_WIDTH \<and>
   rect_x (ob_rect (Obstacle_init loaded r sp)) = GAME_WIDTH \<and>
   game_speed (Obstacle_init loaded r sp) = sp \<and>
   passed (after_updates example_env [] 2 example_game) \<and>
   obstacle (before_collision example_env [] 2 example_game) = Some 1 \<and>
   ob_x (objects (before_collision example_env [] 2 example_game) ! 1) = 800 \<and>
   ob_x (objects (before_collision (example_env\<lparr>random_raw := \<lambda>k. k + 137\<rparr>) [] 2
                    example_game) ! 1) = 800 \<and>
   ob_x (objects (collision_detection example_env
           (before_collision example_env [] example_hit_dt (example_session 3 0))) ! 1) = 800 \<and>
   ob_x (Obstacle_reset 1 137 STARTING_SPEED
           (Obstacle_init (obstacle_files example_env) 0 STARTING_SPEED)) = 937"
proof -
  have 1: "ob_x (Obstacle_init loaded r sp) = of_int GAME_WIDTH"
    "rect_x (ob_rect (Obstacle_init loaded r sp)) = GAME_WIDTH"
    "game_speed (Obstacle_init loaded r sp) = sp" by simp_all
  have 2: "passed (after_updates example_env [] 2 example_game)" by (rule example_game_passed)
  have 3: "obstacle (before_collision example_env [] 2 example_game) = Some 1"
    by (rule example_respawn(1))
  have 4: "ob_x (objects (before_collision e [] 2 example_game) ! 1) = 800" for e
    by (subst example_respawn(2)) (simp add: GAME_WIDTH_def)
  define c where "c = after_updates example_env [] example_hit_dt (example_session 3 0)"
  define q where
    "q = Player_update example_hit_dt (example_player\<lparr>health := 3, invincibility_frame := 0\<rparr>)"
  have cq: "player c = Some q" "obstacles_group c = Some [0]"
    unfolding c_def q_def by (rule example_hit_fields)+
  have qt: "invincibility_frame q \<le> 0" unfolding q_def by (simp add: example_player_timer)
  have qm: "collide_mask q (objects c ! 0)"
    unfolding c_def q_def by (simp add: example_hit_obstacle example_hit_collides)
  have l: "length (objects c) = 1" unfolding c_def by (simp add: example_hit_obstacle)
  have 5: "ob_x (objects (collision_detection example_env
           (before_collision example_env [] example_hit_dt (example_session 3 0))) ! 1) = 800"
    unfolding example_hit_before c_def [symmetric]
    unfolding collision_detection_hit(4) [OF cq qt qm]
    using nth_append_length [of "objects c" _ "[]"] l by (simp add: GAME_WIDTH_def)
  have 6: "ob_x (Obstacle_reset 1 137 STARTING_SPEED
           (Obstacle_init (obstacle_files example_env) 0 STARTING_SPEED)) = 937"
    by (simp add: Obstacle_reset_def Let_def random_randint_def constants)
  show ?thesis
    by (intro conjI) (rule 1(1), rule 1(2), rule 1(3), rule 2, rule 3, rule 4, rule 4, rule 5, rule 6)
qed

lemma playing_updates_parallax:
  "parallax_offsets (playing_updates env dt g) =
     update_parallax (parallax_offsets g) (background_layers env) (speed g) dt"
  by (simp add: playing_updates_def Let_def split: option.splits)

lemma example_game_parallax: "parallax_offsets example_game = [0, 0, 0, 0]"
  by (simp add: example_game_def reset_game_session(7) example_env_def)

text \<open>Claim C7. \<^verbatim>\<open>update_parallax\<close> of the program subtracts the scroll amount and adds
  the width of the layer once when the result is at or below minus that width. A scroll
  amount of more than one width therefore leaves the offset out of range. In the
  example session (layers 768 wide, speed 5) a frame of 11 seconds takes the offsets
  from 0 to -882, -1047, -1212 and -1377, all below -768, and a second such frame
  takes the first one further, to -1764. The same function in the older variant of
  the program puts the offset back to 0 whenever its magnitude passes the width, and
  keeps the four offsets in range on the same input.\<close>

theorem parallax_offset_escapes:
  "map surf_width (background_layers example_env) = [768, 768, 768, 768] \<and>
   update_parallax [0, 0, 0, 0] (background_layers example_env) STARTING_SPEED 11 =
     [- 882, - 1047, - 1212, - 1377] \<and>
   parallax_offsets (after_updates example_env [] 11 example_game) =
     [- 882, - 1047, - 1212, - 1377] \<and>
   update_parallax [- 882, - 1047, - 1212, - 1377] (background_layers example_env)
     STARTING_SPEED 11 ! 0 = - 1764 \<and>
   update_parallax_main [0, 0, 0, 0] (background_layers example_env) STARTING_SPEED 11 =
     [- 55 / 2, - 55, - 165 / 2, - 110]"
proof -
  have 1: "map surf_width (background_layers example_env) = [768, 768, 768, 768]"
    by (simp add: example_env_def example_layer_def)
  have 2: "update_parallax [0, 0, 0, 0] (background_layers example_env) STARTING_SPEED 11 =
     [- 882, - 1047, - 1212, - 1377]"
    by (simp add: update_parallax_def Let_def example_env_def example_layer_def
          STARTING_SPEED_def)
  have 3: "parallax_offsets (after_updates example_env [] 11 example_game) =
     [- 882, - 1047, - 1212, - 1377]"
    unfolding after_updates_def playing_updates_parallax
    by (simp add: playing_input_def example_game_parallax example_game_fields(5) 2)
  have 4: "update_parallax [- 882, - 1047, - 1212, - 1377] (background_layers example_env)
     STARTING_SPEED 11 ! 0 = - 1764"
    by (simp add: update_parallax_def Let_def example_env_def example_layer_def
          STARTING_SPEED_def)
  have 5: "update_parallax_main [0, 0, 0, 0] (background_layers example_env) STARTING_SPEED 11 =
     [- 55 / 2, - 55, - 165 / 2, - 110]"
    by (simp add: update_parallax_main_def Let_def example_env_def example_layer_def
          STARTING_SPEED_def)
  show ?thesis by (intro conjI) (rule 1, rule 2, rule 3, rule 4, rule 5)
qed

end
